theory Spec2Isabelle
  imports Complex_Main "HOL-Library.AList"
begin

section \<open>Python values and exceptions\<close>

text \<open>
  The managers are Python. A value that crosses \<^verbatim>\<open>json.loads\<close> is dynamically typed, and
  the code applies \<^verbatim>\<open>in\<close>, subscripts and \<^verbatim>\<open>len\<close> to it without checking its type first,
  so the model keeps the type tag and writes out which operation raises on which tag.
\<close>

datatype error =
    TypeError | KeyError | IndexError | ValueError | NameError
  | UnboundLocalError | AttributeError | External string

datatype pyval =
    PNone
  | PBool bool
  | PInt int
  | PFloat real
  | PStr string
  | PList "pyval list"
  | PDict "(string \<times> pyval) list"

text \<open>\<^verbatim>\<open>needle in hay\<close> for two Python strings: substring search.\<close>

fun is_substring :: "string \<Rightarrow> string \<Rightarrow> bool" where
  "is_substring k [] = (k = [])"
| "is_substring k (c # cs) = (take (length k) (c # cs) = k \<or> is_substring k cs)"

text \<open>
  \<^verbatim>\<open>k in v\<close> with \<open>k\<close> a string literal: key membership on a dict, element equality on
  a list, substring search on a string, and \<^verbatim>\<open>TypeError\<close> (argument is not iterable) on
  None, a bool or a number.
\<close>

fun py_contains :: "string \<Rightarrow> pyval \<Rightarrow> error + bool" where
  "py_contains k (PDict kvs) = Inr (k \<in> set (map fst kvs))"
| "py_contains k (PList xs) = Inr (PStr k \<in> set xs)"
| "py_contains k (PStr s) = Inr (is_substring k s)"
| "py_contains k PNone = Inl TypeError"
| "py_contains k (PBool b) = Inl TypeError"
| "py_contains k (PInt i) = Inl TypeError"
| "py_contains k (PFloat r) = Inl TypeError"

text \<open>
  \<^verbatim>\<open>v[k]\<close> with \<open>k\<close> a string literal: \<^verbatim>\<open>KeyError\<close> on a dict without the key,
  \<^verbatim>\<open>TypeError\<close> on everything that is not a dict (a list and a string take integer
  indices only, the others are not subscriptable).
\<close>

fun py_getitem :: "pyval \<Rightarrow> string \<Rightarrow> error + pyval" where
  "py_getitem (PDict kvs) k = (case map_of kvs k of None \<Rightarrow> Inl KeyError | Some v \<Rightarrow> Inr v)"
| "py_getitem PNone k = Inl TypeError"
| "py_getitem (PBool b) k = Inl TypeError"
| "py_getitem (PInt i) k = Inl TypeError"
| "py_getitem (PFloat r) k = Inl TypeError"
| "py_getitem (PStr s) k = Inl TypeError"
| "py_getitem (PList xs) k = Inl TypeError"

text \<open>
  \<^verbatim>\<open>v[len(v) - 1]\<close>: the last element of a list (\<^verbatim>\<open>IndexError\<close> when it is empty, the
  index is then -1), the last character of a string, \<^verbatim>\<open>KeyError\<close> on a dict (its keys
  are strings, the index is an int), \<^verbatim>\<open>TypeError\<close> from \<^verbatim>\<open>len\<close> on the rest.
\<close>

fun py_last :: "pyval \<Rightarrow> error + pyval" where
  "py_last (PList xs) = (if xs = [] then Inl IndexError else Inr (last xs))"
| "py_last (PStr s) = (if s = [] then Inl IndexError else Inr (PStr [last s]))"
| "py_last (PDict kvs) = Inl KeyError"
| "py_last PNone = Inl TypeError"
| "py_last (PBool b) = Inl TypeError"
| "py_last (PInt i) = Inl TypeError"
| "py_last (PFloat r) = Inl TypeError"

text \<open>\<^verbatim>\<open>v[0]\<close>.\<close>

fun py_first :: "pyval \<Rightarrow> error + pyval" where
  "py_first (PList xs) = (case xs of [] \<Rightarrow> Inl IndexError | x # _ \<Rightarrow> Inr x)"
| "py_first (PStr s) = (case s of [] \<Rightarrow> Inl IndexError | c # _ \<Rightarrow> Inr (PStr [c]))"
| "py_first (PDict kvs) = Inl KeyError"
| "py_first PNone = Inl TypeError"
| "py_first (PBool b) = Inl TypeError"
| "py_first (PInt i) = Inl TypeError"
| "py_first (PFloat r) = Inl TypeError"

text \<open>\<^verbatim>\<open>v.append(x)\<close>: only a list has the method.\<close>

fun py_append :: "pyval \<Rightarrow> pyval \<Rightarrow> error + pyval" where
  "py_append (PList xs) x = Inr (PList (xs @ [x]))"
| "py_append PNone x = Inl AttributeError"
| "py_append (PBool b) x = Inl AttributeError"
| "py_append (PInt i) x = Inl AttributeError"
| "py_append (PFloat r) x = Inl AttributeError"
| "py_append (PStr s) x = Inl AttributeError"
| "py_append (PDict kvs) x = Inl AttributeError"

section \<open>The key-value store\<close>

text \<open>
  Modelled from the spec: the store behind \<^verbatim>\<open>kv_helper\<close> (module \<^verbatim>\<open>database.connector\<close>)
  is not among the source files. The spec gives it as a durable mapping of table name to
  (key to value) with \<^verbatim>\<open>set\<close>, \<^verbatim>\<open>get\<close>, \<^verbatim>\<open>remove\<close> and \<^verbatim>\<open>lookup(table)\<close> returning
  the keys, single-key operations atomic. A table is an association list, so that
  \<^verbatim>\<open>lookup\<close> has an order to return the keys in; \<^verbatim>\<open>get\<close> of an absent key is None.
  Every write is also appended to a journal, the sequence of store mutations in the order
  the code issues them.
\<close>

datatype kvop = Put string string string | Del string string

record kvstore =
  tables :: "string \<Rightarrow> (string \<times> string) list"
  journal :: "kvop list"

definition kv_get :: "kvstore \<Rightarrow> string \<Rightarrow> string \<Rightarrow> string option" where
  "kv_get s t k = map_of (tables s t) k"

definition kv_lookup :: "kvstore \<Rightarrow> string \<Rightarrow> string list" where
  "kv_lookup s t = map fst (tables s t)"

definition kv_set :: "kvstore \<Rightarrow> string \<Rightarrow> string \<Rightarrow> string \<Rightarrow> kvstore" where
  "kv_set s t k v =
     s\<lparr>tables := (tables s)(t := AList.update k v (tables s t)),
       journal := journal s @ [Put t k v]\<rparr>"

definition kv_remove :: "kvstore \<Rightarrow> string \<Rightarrow> string \<Rightarrow> kvstore" where
  "kv_remove s t k =
     s\<lparr>tables := (tables s)(t := AList.delete k (tables s t)),
       journal := journal s @ [Del t k]\<rparr>"

text \<open>Python truthiness of what \<^verbatim>\<open>get\<close> returned: None and the empty string are false.\<close>

definition truthy :: "string option \<Rightarrow> bool" where
  "truthy v = (case v of None \<Rightarrow> False | Some x \<Rightarrow> x \<noteq> [])"

section \<open>What the manager takes from outside\<close>

text \<open>
  The libraries and the enclave are parameters of the model. \<^verbatim>\<open>json.loads\<close> returns None
  here where Python raises \<^verbatim>\<open>ValueError\<close>. The three \<open>eq_\<close> fields are the comparisons
  with the constants of \<^verbatim>\<open>error_code.error_status\<close>, whose values are not in the source
  files: \<^verbatim>\<open>x == WorkOrderStatus.FAILED\<close>, \<^verbatim>\<open>x == WorkOrderStatus.PENDING.value\<close> and
  \<^verbatim>\<open>x == ReceiptCreateStatus.COMPLETED.value\<close>. \<open>sgx_execute\<close> is
  \<^verbatim>\<open>SgxWorkOrderRequest(enclave_data, input).execute()\<close>, \<open>receipt_obj_update_receipt\<close> is
  \<^verbatim>\<open>WorkOrderReceiptRequest().update_receipt(wo_id, update_type, response, private_key)\<close>,
  \<open>worker_id\<close> is the SHA-256 hex digest of the stripped enclave id.
\<close>

record env =
  json_loads :: "string \<Rightarrow> pyval option"
  json_dumps :: "nat option \<Rightarrow> pyval \<Rightarrow> string"
  sgx_execute :: "string \<Rightarrow> error + pyval"
  receipt_obj_update_receipt :: "string \<Rightarrow> pyval \<Rightarrow> pyval \<Rightarrow> error + pyval"
  eq_WorkOrderStatus_FAILED :: "pyval \<Rightarrow> bool"
  eq_WorkOrderStatus_PENDING_value :: "pyval \<Rightarrow> bool"
  eq_ReceiptCreateStatus_COMPLETED_value :: "pyval \<Rightarrow> bool"
  ReceiptCreateStatus_FAILED_value :: pyval
  ReceiptCreateStatus_PROCESSED_value :: pyval
  create_json_worker :: "error + string"
  worker_id :: string

section \<open>The receipt ledger\<close>

text \<open>
  \<^verbatim>\<open>"error" in wo_json_resp and wo_json_resp["error"]["code"] != WorkOrderStatus.PENDING.value\<close>
  chooses the update type.
\<close>

definition receipt_update_type :: "env \<Rightarrow> pyval \<Rightarrow> error + pyval" where
  "receipt_update_type e wo_json_resp =
     (case py_contains ''error'' wo_json_resp of
        Inl x \<Rightarrow> Inl x
      | Inr False \<Rightarrow> Inr (ReceiptCreateStatus_PROCESSED_value e)
      | Inr True \<Rightarrow>
          (case py_getitem wo_json_resp ''error'' of
             Inl x \<Rightarrow> Inl x
           | Inr err \<Rightarrow>
               (case py_getitem err ''code'' of
                  Inl x \<Rightarrow> Inl x
                | Inr code \<Rightarrow>
                    if \<not> eq_WorkOrderStatus_PENDING_value e code
                    then Inr (ReceiptCreateStatus_FAILED_value e)
                    else Inr (ReceiptCreateStatus_PROCESSED_value e))))"

text \<open>
  The tail of \<^verbatim>\<open>__update_receipt\<close>: \<^verbatim>\<open>updated_receipt.append(wo_receipt)\<close>, then the one
  write of the method.
\<close>

definition append_receipt ::
  "env \<Rightarrow> string \<Rightarrow> pyval \<Rightarrow> pyval \<Rightarrow> kvstore \<Rightarrow> (error + pyval) \<times> kvstore" where
  "append_receipt e wo_id updated_receipt wo_receipt s =
     (case py_append updated_receipt wo_receipt of
        Inl x \<Rightarrow> (Inl x, s)
      | Inr updated \<Rightarrow>
          (Inr PNone, kv_set s ''wo-receipt-updates'' wo_id (json_dumps e None updated)))"

text \<open>
  \<^verbatim>\<open>EnclaveManager.__update_receipt(kv_helper, wo_id, wo_json_resp)\<close>. The result pairs what
  the call did (\<open>Inr\<close> the value returned, \<open>Inl\<close> the exception raised) with the store it
  leaves behind.
\<close>

definition update_receipt ::
  "env \<Rightarrow> string \<Rightarrow> pyval \<Rightarrow> kvstore \<Rightarrow> (error + pyval) \<times> kvstore" where
  "update_receipt e wo_id wo_json_resp s =
     (if truthy (kv_get s ''wo-receipts'' wo_id) then
        (case receipt_update_type e wo_json_resp of
           Inl x \<Rightarrow> (Inl x, s)
         | Inr update_type \<Rightarrow>
             (case receipt_obj_update_receipt e wo_id update_type wo_json_resp of
                Inl x \<Rightarrow> (Inl x, s)
              | Inr wo_receipt \<Rightarrow>
                  (case kv_get s ''wo-receipt-updates'' wo_id of
                     None \<Rightarrow> append_receipt e wo_id (PList []) wo_receipt s
                   | Some updates_to_receipt \<Rightarrow>
                       (case json_loads e updates_to_receipt of
                          None \<Rightarrow> (Inl ValueError, s)
                        | Some updated_receipt \<Rightarrow>
                            (case py_last updated_receipt of
                               Inl x \<Rightarrow> (Inl x, s)
                             | Inr last_receipt \<Rightarrow>
                                 (case py_getitem last_receipt ''updateType'' of
                                    Inl x \<Rightarrow> (Inl x, s)
                                  | Inr ut \<Rightarrow>
                                      if eq_ReceiptCreateStatus_COMPLETED_value e ut
                                      then (Inr PNone, s)
                                      else append_receipt e wo_id updated_receipt wo_receipt s))))))
      else (Inr PNone, s))"

section \<open>The steady-state transition\<close>

text \<open>\<^verbatim>\<open>validate_request\<close>: whether \<^verbatim>\<open>json.loads\<close> accepts the request.\<close>

definition validate_request :: "env \<Rightarrow> string \<Rightarrow> bool" where
  "validate_request e wo_request = (case json_loads e wo_request of None \<Rightarrow> False | Some _ \<Rightarrow> True)"

text \<open>
  \<^verbatim>\<open>_execute_work_order\<close>. When the enclave call raises, the handler assigns into
  \<^verbatim>\<open>wo_response\<close>, a local that was never bound, which raises \<^verbatim>\<open>UnboundLocalError\<close> in
  turn. The inner handler guards \<^verbatim>\<open>json.dumps\<close>, which is total on \<^typ>\<open>pyval\<close>.
\<close>

definition execute_work_order :: "env \<Rightarrow> string \<Rightarrow> error + string" where
  "execute_work_order e input_json_str =
     (case sgx_execute e input_json_str of
        Inl x \<Rightarrow> Inl UnboundLocalError
      | Inr wo_response \<Rightarrow> Inr (json_dumps e (Some 4) wo_response))"

text \<open>
  \<^verbatim>\<open>"Response" in wo_resp and wo_resp["Response"]["Status"] == WorkOrderStatus.FAILED\<close>.
\<close>

definition response_failed :: "env \<Rightarrow> pyval \<Rightarrow> error + bool" where
  "response_failed e wo_resp =
     (case py_contains ''Response'' wo_resp of
        Inl x \<Rightarrow> Inl x
      | Inr False \<Rightarrow> Inr False
      | Inr True \<Rightarrow>
          (case py_getitem wo_resp ''Response'' of
             Inl x \<Rightarrow> Inl x
           | Inr r \<Rightarrow>
               (case py_getitem r ''Status'' of
                  Inl x \<Rightarrow> Inl x
                | Inr st \<Rightarrow> Inr (eq_WorkOrderStatus_FAILED e st))))"

text \<open>
  \<^verbatim>\<open>EnclaveManager.process_work_order_by_id\<close>. The store of the model does not fail, so
  the \<^verbatim>\<open>except\<close> branch of the first \<^verbatim>\<open>try\<close> is not taken. In the branch of a request
  that does not validate, the first statement assigns into \<^verbatim>\<open>wo_response\<close>, a name bound
  neither in the function nor in the module: \<^verbatim>\<open>NameError\<close>, and the three store writes
  after it are not reached.
\<close>

definition process_work_order_by_id ::
  "env \<Rightarrow> string \<Rightarrow> kvstore \<Rightarrow> (error + pyval) \<times> kvstore" where
  "process_work_order_by_id e wo_id s =
     (let s1 = kv_set s ''wo-processing'' wo_id ''PROCESSING'' in
      case kv_get s1 ''wo-requests'' wo_id of
        None \<Rightarrow> (Inr PNone, kv_remove s1 ''wo-processing'' wo_id)
      | Some wo_json_req \<Rightarrow>
          (let s2 = kv_set s1 ''wo-processing'' wo_id ''PROCESSING'';
               s3 = kv_remove s2 ''wo-scheduled'' wo_id in
           if \<not> validate_request e wo_json_req then (Inl NameError, s3)
           else
             (case execute_work_order e wo_json_req of
                Inl x \<Rightarrow> (Inl x, s3)
              | Inr wo_json_resp \<Rightarrow>
                  (case json_loads e wo_json_resp of
                     None \<Rightarrow> (Inl ValueError, s3)
                   | Some wo_resp \<Rightarrow>
                       (case update_receipt e wo_id wo_resp s3 of
                          (Inl x, s4) \<Rightarrow> (Inl x, s4)
                        | (Inr _, s4) \<Rightarrow>
                            (case response_failed e wo_resp of
                               Inl x \<Rightarrow> (Inl x, s4)
                             | Inr True \<Rightarrow>
                                 (Inr PNone,
                                  kv_remove
                                    (kv_set
                                       (kv_set s4 ''wo-processed'' wo_id ''FAILED'')
                                       ''wo-responses'' wo_id wo_json_resp)
                                    ''wo-processing'' wo_id)
                             | Inr False \<Rightarrow>
                                 (Inr wo_resp,
                                  kv_remove
                                    (kv_set
                                       (kv_set s4 ''wo-processed'' wo_id ''SUCCESS'')
                                       ''wo-responses'' wo_id wo_json_resp)
                                    ''wo-processing'' wo_id)))))))"

text \<open>
  The loop of \<^verbatim>\<open>process_work_orders\<close> over the ids that \<^verbatim>\<open>lookup("wo-scheduled")\<close>
  returned: an exception of one id leaves the loop.
\<close>

fun process_each :: "env \<Rightarrow> string list \<Rightarrow> kvstore \<Rightarrow> (error + pyval) \<times> kvstore" where
  "process_each e [] s = (Inr PNone, s)"
| "process_each e (wo_id # rest) s =
     (case process_work_order_by_id e wo_id s of
        (Inl x, s') \<Rightarrow> (Inl x, s')
      | (Inr _, s') \<Rightarrow> process_each e rest s')"

definition process_work_orders :: "env \<Rightarrow> kvstore \<Rightarrow> (error + pyval) \<times> kvstore" where
  "process_work_orders e s = process_each e (kv_lookup s ''wo-scheduled'') s"

section \<open>Boot recovery\<close>

text \<open>
  The body of the loop of \<^verbatim>\<open>manager_on_boot\<close> over the ids of \<^verbatim>\<open>wo-processing\<close>. The boot
  flow hands \<^verbatim>\<open>__update_receipt\<close> the response as the string it read from the store, not
  the parsed value.
\<close>

definition set_processed_if_unset ::
  "string option \<Rightarrow> string \<Rightarrow> string \<Rightarrow> kvstore \<Rightarrow> kvstore" where
  "set_processed_if_unset wo_processed wo st s =
     (if wo_processed = None then kv_set s ''wo-processed'' wo st else s)"

definition boot_wo :: "env \<Rightarrow> string \<Rightarrow> kvstore \<Rightarrow> (error + pyval) \<times> kvstore" where
  "boot_wo e wo s =
     (let wo_json_resp = kv_get s ''wo-responses'' wo;
          wo_processed = kv_get s ''wo-processed'' wo in
      case wo_json_resp of
        None \<Rightarrow>
          (Inr PNone,
           kv_remove (kv_set s ''wo-scheduled'' wo ''SCHEDULED'') ''wo-processing'' wo)
      | Some resp_str \<Rightarrow>
          (case json_loads e resp_str of
             None \<Rightarrow>
               (Inr PNone,
                kv_remove (set_processed_if_unset wo_processed wo ''FAILED'' s)
                  ''wo-processing'' wo)
           | Some wo_resp \<Rightarrow>
               (case response_failed e wo_resp of
                  Inl x \<Rightarrow> (Inl x, s)
                | Inr True \<Rightarrow>
                    (Inr PNone,
                     kv_remove (set_processed_if_unset wo_processed wo ''FAILED'' s)
                       ''wo-processing'' wo)
                | Inr False \<Rightarrow>
                    (case (if truthy (kv_get s ''wo-receipts'' wo)
                           then update_receipt e wo (PStr resp_str) s
                           else (Inr PNone, s)) of
                       (Inl x, s') \<Rightarrow> (Inl x, s')
                     | (Inr _, s') \<Rightarrow>
                         (Inr PNone,
                          kv_remove (set_processed_if_unset wo_processed wo ''SUCCESS'' s')
                            ''wo-processing'' wo)))))"

fun boot_each :: "env \<Rightarrow> string list \<Rightarrow> kvstore \<Rightarrow> (error + pyval) \<times> kvstore" where
  "boot_each e [] s = (Inr PNone, s)"
| "boot_each e (wo # rest) s =
     (case boot_wo e wo s of
        (Inl x, s') \<Rightarrow> (Inl x, s')
      | (Inr _, s') \<Rightarrow> boot_each e rest s')"

text \<open>
  \<^verbatim>\<open>EnclaveManager.manager_on_boot\<close>: clear the workers table, publish this worker, then
  sweep \<^verbatim>\<open>wo-processing\<close>. \<^verbatim>\<open>_create_json_worker\<close> reads the configuration and may raise
  before anything is published.
\<close>

definition clear_workers :: "kvstore \<Rightarrow> kvstore" where
  "clear_workers s = fold (\<lambda>worker st. kv_remove st ''workers'' worker) (kv_lookup s ''workers'') s"

definition manager_on_boot :: "env \<Rightarrow> kvstore \<Rightarrow> (error + pyval) \<times> kvstore" where
  "manager_on_boot e s =
     (let s1 = clear_workers s in
      case create_json_worker e of
        Inl x \<Rightarrow> (Inl x, s1)
      | Inr worker_info \<Rightarrow>
          (let s2 = kv_set s1 ''workers'' (worker_id e) worker_info in
           boot_each e (kv_lookup s2 ''wo-processing'') s2))"

section \<open>The handshake with the key-management enclave\<close>

text \<open>
  What \<^verbatim>\<open>WPERequester\<close> takes from outside: the HTTP client (\<open>postmsg\<close> is
  \<^verbatim>\<open>HttpJrpcClient._postmsg\<close>, which returns the parsed response or raises), the signature
  check (\<open>signature_passed r k\<close> is
  \<^verbatim>\<open>ClientSignature().verify_signature(r, k) == SignatureStatus.PASSED\<close>), the decryption
  of a response, the fresh session key and iv, the two \<^verbatim>\<open>random.randint\<close> draws, and
  \<open>wo_params\<close>, the parsed \<^verbatim>\<open>WorkOrderParams(...).to_string()\<close> with its random ids, for
  the in-data, the hex workload id, the encryption key and the session key and iv.
\<close>

record kme =
  postmsg :: "string \<Rightarrow> error + pyval"
  signature_passed :: "pyval \<Rightarrow> string \<Rightarrow> bool"
  decrypted_response :: "pyval \<Rightarrow> string \<Rightarrow> string \<Rightarrow> error + pyval"
  generate_key :: string
  generate_iv :: string
  randint_request :: int
  randint_wo_req :: int
  wo_params :: "string \<Rightarrow> string \<Rightarrow> string \<Rightarrow> string \<Rightarrow> string \<Rightarrow> error + pyval"
  dumps :: "pyval \<Rightarrow> string"

text \<open>\<^verbatim>\<open>workload_id.encode("UTF-8").hex()\<close>: two lower-case hex digits for each byte.\<close>

definition hex_digit :: "nat \<Rightarrow> char" where
  "hex_digit n = ''0123456789abcdef'' ! (n mod 16)"

definition hex_of :: "string \<Rightarrow> string" where
  "hex_of s = concat (map (\<lambda>c. [hex_digit (of_char c div 16), hex_digit (of_char c)]) s)"

definition construct_wo_req ::
  "kme \<Rightarrow> string \<Rightarrow> string \<Rightarrow> string \<Rightarrow> string \<Rightarrow> string \<Rightarrow> error + pyval" where
  "construct_wo_req k in_data workload_id encryption_key session_key session_iv =
     (case wo_params k in_data (hex_of workload_id) encryption_key session_key session_iv of
        Inl x \<Rightarrow> Inl x
      | Inr params \<Rightarrow>
          Inr (PDict [(''jsonrpc'', PStr ''2.0''), (''method'', PStr workload_id),
                      (''id'', PInt (randint_wo_req k)), (''params'', params)]))"

definition get_request_json :: "kme \<Rightarrow> string \<Rightarrow> (string \<times> pyval) list" where
  "get_request_json k method =
     [(''jsonrpc'', PStr ''2.0''), (''method'', PStr method), (''id'', PInt (randint_request k))]"

text \<open>
  \<^verbatim>\<open>_post_and_get_result\<close> serialises the request, posts it, logs the response and
  returns it. Nothing in it catches an exception of the transport.
\<close>

definition post_and_get_result :: "kme \<Rightarrow> pyval \<Rightarrow> error + pyval" where
  "post_and_get_result k json_rpc_request =
     (case postmsg k (dumps k json_rpc_request) of
        Inl x \<Rightarrow> Inl x
      | Inr response \<Rightarrow> Inr response)"

definition verify_res_signature :: "kme \<Rightarrow> pyval \<Rightarrow> string \<Rightarrow> bool" where
  "verify_res_signature k work_order_res worker_verification_key =
     (if signature_passed k work_order_res worker_verification_key then True else False)"

text \<open>
  \<^verbatim>\<open>get_unique_verification_key\<close> from \<^verbatim>\<open>if "result" in response\<close> on, as a function of
  the value bound to \<^verbatim>\<open>response\<close>.
\<close>

definition unique_verification_key_of ::
  "kme \<Rightarrow> pyval \<Rightarrow> string \<Rightarrow> string \<Rightarrow> string \<Rightarrow> error + pyval" where
  "unique_verification_key_of k response session_key session_iv verifying_key =
     (case py_contains ''result'' response of
        Inl x \<Rightarrow> Inl x
      | Inr False \<Rightarrow> Inr PNone
      | Inr True \<Rightarrow>
          (case py_getitem response ''result'' of
             Inl x \<Rightarrow> Inl x
           | Inr wo_response_json \<Rightarrow>
               if verify_res_signature k wo_response_json verifying_key then
                 (case decrypted_response k wo_response_json session_key session_iv of
                    Inl x \<Rightarrow> Inl x
                  | Inr decrypted_res \<Rightarrow>
                      (case py_first decrypted_res of
                         Inl x \<Rightarrow> Inl x
                       | Inr d \<Rightarrow> py_getitem d ''data''))
               else Inr PNone))"

definition get_unique_verification_key ::
  "kme \<Rightarrow> string \<Rightarrow> string \<Rightarrow> string \<Rightarrow> error + pyval" where
  "get_unique_verification_key k verification_key_nonce encryption_key verifying_key =
     (let workload_id = ''kme-uid'';
          in_data = dumps k (PDict [(''nonce'', PStr verification_key_nonce)]);
          session_key = generate_key k;
          session_iv = generate_iv k in
      case construct_wo_req k in_data workload_id encryption_key session_key session_iv of
        Inl x \<Rightarrow> Inl x
      | Inr wo_req \<Rightarrow>
          (case post_and_get_result k
                  (PDict (get_request_json k ''GetUniqueVerificationKey''
                          @ [(''params'', PDict [(''wo_request'', wo_req)])])) of
             Inl x \<Rightarrow> Inl x
           | Inr response \<Rightarrow>
               unique_verification_key_of k response session_key session_iv verifying_key))"

text \<open>\<^verbatim>\<open>register_wo_processor\<close>, split at the same place.\<close>

definition registration_of ::
  "kme \<Rightarrow> pyval \<Rightarrow> string \<Rightarrow> string \<Rightarrow> string \<Rightarrow> error + pyval" where
  "registration_of k response session_key session_iv verifying_key =
     (case py_contains ''result'' response of
        Inl x \<Rightarrow> Inl x
      | Inr False \<Rightarrow> Inr PNone
      | Inr True \<Rightarrow>
          (case py_getitem response ''result'' of
             Inl x \<Rightarrow> Inl x
           | Inr wo_response_json \<Rightarrow>
               if verify_res_signature k wo_response_json verifying_key
               then decrypted_response k wo_response_json session_key session_iv
               else Inr PNone))"

definition register_wo_processor ::
  "kme \<Rightarrow> string \<Rightarrow> string \<Rightarrow> string \<Rightarrow> error + pyval" where
  "register_wo_processor k attestation_report encryption_key verifying_key =
     (let workload_id = ''kme-reg'';
          in_data = dumps k (PDict [(''attestation_report'', PStr attestation_report)]);
          session_key = generate_key k;
          session_iv = generate_iv k in
      case construct_wo_req k in_data workload_id encryption_key session_key session_iv of
        Inl x \<Rightarrow> Inl x
      | Inr wo_request \<Rightarrow>
          (case post_and_get_result k
                  (PDict (get_request_json k ''RegisterWorkOrderProcessor''
                          @ [(''params'', PDict [(''wo_request'', wo_request)])])) of
             Inl x \<Rightarrow> Inl x
           | Inr response \<Rightarrow>
               registration_of k response session_key session_iv verifying_key))"

text \<open>
  \<^verbatim>\<open>preprocess_work_order\<close>: the request carries the work order and the encryption key;
  the response is bound and dropped, and the method returns None.
\<close>

definition preprocess_request :: "kme \<Rightarrow> pyval \<Rightarrow> string \<Rightarrow> pyval" where
  "preprocess_request k wo_request encryption_key =
     PDict (get_request_json k ''PreProcessWorkOrder''
            @ [(''params'', PDict [(''wo_request'', wo_request),
                                   (''encryption_key'', PStr encryption_key)])])"

definition preprocess_work_order ::
  "kme \<Rightarrow> pyval \<Rightarrow> string \<Rightarrow> string \<Rightarrow> error + pyval" where
  "preprocess_work_order k wo_request encryption_key verifying_key =
     (case post_and_get_result k (preprocess_request k wo_request encryption_key) of
        Inl x \<Rightarrow> Inl x
      | Inr response \<Rightarrow> Inr PNone)"

subsection \<open>The signup of the work-order processor\<close>

text \<open>\<^verbatim>\<open>s.split(' ')\<close>: every single separator splits, empty pieces are kept.\<close>

fun py_split :: "char \<Rightarrow> string \<Rightarrow> string list" where
  "py_split d [] = [[]]"
| "py_split d (c # cs) =
     (if c = d then [] # py_split d cs
      else (case py_split d cs of [] \<Rightarrow> [[c]] | w # ws \<Rightarrow> (c # w) # ws))"

text \<open>\<^verbatim>\<open>xs[i]\<close> on a Python list with a non-negative index.\<close>

definition py_nth :: "'a list \<Rightarrow> nat \<Rightarrow> error + 'a" where
  "py_nth xs i = (if i < length xs then Inr (xs ! i) else Inl IndexError)"

text \<open>
  What \<^verbatim>\<open>_create_signup_data\<close> takes from outside. The manager imports \<^verbatim>\<open>WPERequester\<close>
  from \<^verbatim>\<open>avalon_enclave_manager.wpe_common.wpe_requester\<close> and calls its
  \<^verbatim>\<open>get_unique_verification_key\<close> with the nonce alone, so the call is a parameter here:
  \<open>requester_key nonce\<close>. \<open>verify_unique_id_signature\<close> is the enclave's
  \<^verbatim>\<open>VerifyUniqueIdSignature\<close>, zero for a signature that verifies. The other enclave
  calls (the constructor of the enclave info, the measurement, the creation of the
  signup data) are taken to succeed.
\<close>

record wpe =
  generate_nonce :: "nat \<Rightarrow> string"
  requester_key :: "string \<Rightarrow> error + pyval"
  verify_unique_id_signature :: "string \<Rightarrow> string \<Rightarrow> int"

text \<open>
  The signup data is created from the unique verification key; the model keeps that key
  as the content of the signup data returned.
\<close>

datatype signup_data = SignupData string

definition create_signup_data :: "wpe \<Rightarrow> error + signup_data option" where
  "create_signup_data w =
     (let verification_key_nonce = generate_nonce w 32 in
      case requester_key w verification_key_nonce of
        Inl x \<Rightarrow> Inl x
      | Inr PNone \<Rightarrow> Inr None
      | Inr (PStr response) \<Rightarrow>
          (case py_nth (py_split CHR '' '' response) 1 of
             Inl x \<Rightarrow> Inl x
           | Inr unique_verification_key \<Rightarrow>
               (case py_nth (py_split CHR '' '' response) 2 of
                  Inl x \<Rightarrow> Inl x
                | Inr unique_verification_key_signature \<Rightarrow>
                    if verify_unique_id_signature w unique_verification_key
                         unique_verification_key_signature \<noteq> 0
                    then Inr None
                    else Inr (Some (SignupData unique_verification_key))))
      | Inr _ \<Rightarrow> Inl AttributeError)"

section \<open>The journal of a run\<close>

text \<open>
  What one journal entry does to the tables, and the states a crash can leave behind:
  \<open>crash_states T ops\<close> lists the tables before each operation of \<open>ops\<close>, that is after
  every proper prefix of it. A work order is \<open>held\<close> by tables that list it under
  \<^verbatim>\<open>wo-scheduled\<close> or under \<^verbatim>\<open>wo-processing\<close>, the two places boot recovery and the
  polling loop look at.
\<close>

fun apply_op ::
  "kvop \<Rightarrow> (string \<Rightarrow> (string \<times> string) list) \<Rightarrow> (string \<Rightarrow> (string \<times> string) list)" where
  "apply_op (Put t k v) T = T(t := AList.update k v (T t))"
| "apply_op (Del t k) T = T(t := AList.delete k (T t))"

fun crash_states ::
  "(string \<Rightarrow> (string \<times> string) list) \<Rightarrow> kvop list \<Rightarrow> (string \<Rightarrow> (string \<times> string) list) list" where
  "crash_states T [] = []"
| "crash_states T (x # xs) = T # crash_states (apply_op x T) xs"

definition held :: "(string \<Rightarrow> (string \<times> string) list) \<Rightarrow> string \<Rightarrow> bool" where
  "held T wo =
     (wo \<in> set (map fst (T ''wo-scheduled'')) \<or> wo \<in> set (map fst (T ''wo-processing'')))"

text \<open>\<open>extends s s' ops\<close>: the run from \<open>s\<close> to \<open>s'\<close> wrote exactly \<open>ops\<close>.\<close>

definition extends :: "kvstore \<Rightarrow> kvstore \<Rightarrow> kvop list \<Rightarrow> bool" where
  "extends s s' ops = (journal s' = journal s @ ops \<and> tables s' = fold apply_op ops (tables s))"

text \<open>
  The writes of \<^verbatim>\<open>process_work_order_by_id\<close> by phase: the claim of the id, the receipt
  update (at most one write), the terminal record.
\<close>

definition claim_ops :: "string \<Rightarrow> kvop list" where
  "claim_ops wo_id =
     [Put ''wo-processing'' wo_id ''PROCESSING'', Put ''wo-processing'' wo_id ''PROCESSING'',
      Del ''wo-scheduled'' wo_id]"

definition mid_ok :: "string \<Rightarrow> kvop list \<Rightarrow> bool" where
  "mid_ok wo_id mid = (mid = [] \<or> (\<exists>v. mid = [Put ''wo-receipt-updates'' wo_id v]))"

definition fin_ok :: "string \<Rightarrow> kvop list \<Rightarrow> bool" where
  "fin_ok wo_id fin =
     (fin = [] \<or> (\<exists>st r. fin = [Put ''wo-processed'' wo_id st, Put ''wo-responses'' wo_id r,
                                Del ''wo-processing'' wo_id]))"

definition finish :: "kvstore \<Rightarrow> string \<Rightarrow> string \<Rightarrow> string \<Rightarrow> kvstore" where
  "finish s4 wo_id st r =
     kv_remove (kv_set (kv_set s4 ''wo-processed'' wo_id st) ''wo-responses'' wo_id r)
       ''wo-processing'' wo_id"

section \<open>Concrete environments and stores\<close>

text \<open>
  An environment for the closed instances below. Its JSON codec is a table over the
  texts that occur in them; every other text, \<^verbatim>\<open>{not json\<close> among them, does not parse.
  The status constants have the values of Avalon's \<^verbatim>\<open>error_status\<close> module:
  \<^verbatim>\<open>WorkOrderStatus.FAILED = 1\<close>, \<^verbatim>\<open>PENDING = 5\<close>, \<^verbatim>\<open>ReceiptCreateStatus.COMPLETED = 1\<close>,
  \<^verbatim>\<open>PROCESSED = 2\<close>, \<^verbatim>\<open>FAILED = 3\<close>. The enclave answers every request with the empty
  object.
\<close>

definition demo_json :: "(string \<times> pyval) list" where
  \<open>demo_json =
     [(''{}'', PDict []),
      (''5'', PInt 5),
      (''{"Response": {"Status": 1}}'', PDict [(''Response'', PDict [(''Status'', PInt 1)])]),
      (''[{"updateType": 1}]'', PList [PDict [(''updateType'', PInt 1)]]),
      (''{"error": {"code": 2}}'', PDict [(''error'', PDict [(''code'', PInt 2)])])]\<close>

definition demo_env :: env where
  "demo_env =
     \<lparr>json_loads = map_of demo_json,
      json_dumps = (\<lambda>indent v. case find (\<lambda>p. snd p = v) demo_json of
                                   None \<Rightarrow> ''null'' | Some p \<Rightarrow> fst p),
      sgx_execute = (\<lambda>input. Inr (PDict [])),
      receipt_obj_update_receipt =
        (\<lambda>wo_id update_type resp. Inr (PDict [(''updateType'', update_type)])),
      eq_WorkOrderStatus_FAILED = (\<lambda>v. v = PInt 1),
      eq_WorkOrderStatus_PENDING_value = (\<lambda>v. v = PInt 5),
      eq_ReceiptCreateStatus_COMPLETED_value = (\<lambda>v. v = PInt 1),
      ReceiptCreateStatus_FAILED_value = PInt 3,
      ReceiptCreateStatus_PROCESSED_value = PInt 2,
      create_json_worker = Inr ''{}'',
      worker_id = ''w1''\<rparr>"

definition store_of :: "(string \<times> (string \<times> string) list) list \<Rightarrow> kvstore" where
  "store_of ts =
     \<lparr>tables = (\<lambda>t. case map_of ts t of None \<Rightarrow> [] | Some al \<Rightarrow> al), journal = []\<rparr>"

text \<open>Scenario A of the spec: one scheduled work order with a request that parses.\<close>

definition scenario_A :: kvstore where
  "scenario_A = store_of [(''wo-scheduled'', [(''wo1'', ''SCHEDULED'')]),
                          (''wo-requests'', [(''wo1'', ''{}'')])]"

text \<open>
  Scenario B of the spec: the request of \<^verbatim>\<open>wo2\<close> is \<^verbatim>\<open>{not json\<close>. A second work order,
  \<^verbatim>\<open>wo4\<close>, is scheduled behind it with a request that parses.
\<close>

definition scenario_B :: kvstore where
  "scenario_B = store_of [(''wo-scheduled'', [(''wo2'', ''SCHEDULED''), (''wo4'', ''SCHEDULED'')]),
                          (''wo-requests'', [(''wo2'', ''{not json''), (''wo4'', ''{}'')])]"

text \<open>Scenario C of the spec: \<^verbatim>\<open>wo3\<close> is under \<^verbatim>\<open>wo-processing\<close> and has no response.\<close>

definition scenario_C :: kvstore where
  "scenario_C = store_of [(''wo-processing'', [(''wo3'', ''PROCESSING'')]),
                          (''wo-requests'', [(''wo3'', ''{}'')])]"

text \<open>
  As scenario C, with one more id under \<^verbatim>\<open>wo-processing\<close> that the sweep visits first:
  \<^verbatim>\<open>wo0\<close>, whose stored response is the JSON text \<^verbatim>\<open>5\<close>.
\<close>

definition stuck_store :: kvstore where
  "stuck_store = store_of [(''wo-processing'', [(''wo0'', ''PROCESSING''), (''wo3'', ''PROCESSING'')]),
                           (''wo-responses'', [(''wo0'', ''5'')])]"

text \<open>
  A store as \<^verbatim>\<open>process_work_order_by_id\<close> leaves it when the process dies between its
  last two writes: the enclave answered \<^verbatim>\<open>wo0\<close> with a JSON-RPC error, a receipt exists
  for it, the response and the outcome are stored, and the entry under \<^verbatim>\<open>wo-processing\<close>
  is still there. \<^verbatim>\<open>wo3\<close> is under \<^verbatim>\<open>wo-processing\<close> with no response, as in scenario C.
\<close>

definition crashed_store :: kvstore where
  \<open>crashed_store =
     store_of [(''wo-processing'', [(''wo0'', ''PROCESSING''), (''wo3'', ''PROCESSING'')]),
               (''wo-responses'', [(''wo0'', ''{"error": {"code": 2}}'')]),
               (''wo-processed'', [(''wo0'', ''SUCCESS'')]),
               (''wo-receipts'', [(''wo0'', ''receipt'')])]\<close>

text \<open>The environment above with an enclave call that raises.\<close>

definition faulty_env :: env where
  "faulty_env = demo_env\<lparr>sgx_execute := (\<lambda>input. Inl (External ''enclave''))\<rparr>"

text \<open>A receipt whose one stored update has the type COMPLETED.\<close>

definition frozen_store :: kvstore where
  \<open>frozen_store = store_of [(''wo-receipts'', [(''wo1'', ''receipt'')]),
                            (''wo-receipt-updates'', [(''wo1'', ''[{"updateType": 1}]'')])]\<close>

text \<open>
  Scenario D of the spec: the key-management enclave answers every request with a
  response that has a \<^verbatim>\<open>result\<close>, and the signature of that result does not verify.
\<close>

definition kme_response :: pyval where
  "kme_response =
     PDict [(''jsonrpc'', PStr ''2.0''), (''id'', PInt 1),
            (''result'', PDict [(''signature'', PStr ''forged'')])]"

definition demo_kme :: kme where
  "demo_kme =
     \<lparr>postmsg = (\<lambda>request. Inr kme_response),
      signature_passed = (\<lambda>res key. False),
      decrypted_response = (\<lambda>res key iv. Inr (PList [PDict [(''data'', PStr ''0 key sig'')]])),
      generate_key = ''session-key'',
      generate_iv = ''session-iv'',
      randint_request = 7,
      randint_wo_req = 8,
      wo_params = (\<lambda>in_data workload_id_hex encryption_key session_key session_iv. Inr (PDict [])),
      dumps = json_dumps demo_env None\<rparr>"

text \<open>
  The same authority behind a transport that raises, and behind one that delivers the
  JSON value \<^verbatim>\<open>null\<close>.
\<close>

definition down_kme :: kme where
  "down_kme = demo_kme\<lparr>postmsg := (\<lambda>request. Inl (External ''connection refused''))\<rparr>"

definition null_kme :: kme where
  "null_kme = demo_kme\<lparr>postmsg := (\<lambda>request. Inr PNone)\<rparr>"

text \<open>
  A signup whose requester is the class of the source files, called with the keys it
  needs, and a signup whose requester hands back a key that the enclave's trust anchor
  rejects.
\<close>

definition demo_wpe :: wpe where
  "demo_wpe =
     \<lparr>generate_nonce = (\<lambda>n. ''nonce''),
      requester_key = (\<lambda>nonce. get_unique_verification_key demo_kme nonce ''ek'' ''vk''),
      verify_unique_id_signature = (\<lambda>key sig. 0)\<rparr>"

definition untrusted_wpe :: wpe where
  "untrusted_wpe =
     \<lparr>generate_nonce = (\<lambda>n. ''nonce''),
      requester_key = (\<lambda>nonce. Inr (PStr ''0 key sig'')),
      verify_unique_id_signature = (\<lambda>key sig. 1)\<rparr>"

section \<open>Facts about the store\<close>

lemma kv_get_set:
  "kv_get (kv_set s t k v) t' k' = (if t' = t \<and> k' = k then Some v else kv_get s t' k')"
  by (simp add: kv_get_def kv_set_def update_conv')

lemma kv_get_remove:
  "kv_get (kv_remove s t k) t' k' = (if t' = t \<and> k' = k then None else kv_get s t' k')"
  by (simp add: kv_get_def kv_remove_def delete_conv')

lemma tables_kv_set:
  "tables (kv_set s t k v) t' = (if t' = t then AList.update k v (tables s t) else tables s t')"
  by (simp add: kv_set_def)

lemma tables_kv_remove:
  "tables (kv_remove s t k) t' = (if t' = t then AList.delete k (tables s t) else tables s t')"
  by (simp add: kv_remove_def)

lemma journal_kv_set: "journal (kv_set s t k v) = journal s @ [Put t k v]"
  by (simp add: kv_set_def)

lemma journal_kv_remove: "journal (kv_remove s t k) = journal s @ [Del t k]"
  by (simp add: kv_remove_def)

lemma kv_get_cong: "tables s = tables t \<Longrightarrow> kv_get s = kv_get t"
  by (simp add: kv_get_def fun_eq_iff)

lemma extends_refl: "extends s s []"
  by (simp add: extends_def)

lemma extends_set: "extends s s' ops \<Longrightarrow> extends s (kv_set s' t k v) (ops @ [Put t k v])"
  by (simp add: extends_def kv_set_def)

lemma extends_remove: "extends s s' ops \<Longrightarrow> extends s (kv_remove s' t k) (ops @ [Del t k])"
  by (simp add: extends_def kv_remove_def)

text \<open>The unfolding rules that evaluate the model on a concrete store.\<close>

lemmas store_eval =
  kv_get_def kv_set_def kv_remove_def kv_lookup_def truthy_def store_of_def Let_def

lemmas demo_eval = demo_env_def demo_json_def

lemmas manager_eval =
  process_work_order_by_id_def validate_request_def execute_work_order_def response_failed_def
  update_receipt_def receipt_update_type_def append_receipt_def boot_wo_def
  set_processed_if_unset_def manager_on_boot_def clear_workers_def process_work_orders_def

section \<open>The receipt ledger\<close>

lemma append_receipt_other:
  "append_receipt e wo_id upd r s = (out, s') \<Longrightarrow> t \<noteq> ''wo-receipt-updates'' \<Longrightarrow>
     tables s' t = tables s t"
  by (auto simp: append_receipt_def tables_kv_set split: sum.splits)

lemma update_receipt_other:
  "update_receipt e wo_id resp s = (out, s') \<Longrightarrow> t \<noteq> ''wo-receipt-updates'' \<Longrightarrow>
     tables s' t = tables s t"
  by (auto simp: update_receipt_def split: sum.splits option.splits if_splits
           dest: append_receipt_other)

lemma update_receipt_snd_other:
  "t \<noteq> ''wo-receipt-updates'' \<Longrightarrow> tables (snd (update_receipt e wo_id resp s)) t = tables s t"
  using update_receipt_other [of e wo_id resp s "fst (update_receipt e wo_id resp s)"
      "snd (update_receipt e wo_id resp s)" t]
  by simp

text \<open>An exception of the receipt update leaves the store as it was: the one write is last.\<close>

lemma append_receipt_raise: "append_receipt e wo_id upd r s = (Inl x, s') \<Longrightarrow> s' = s"
  by (auto simp: append_receipt_def split: sum.splits)

lemma update_receipt_raise: "update_receipt e wo_id resp s = (Inl x, s') \<Longrightarrow> s' = s"
  by (auto simp: update_receipt_def split: sum.splits option.splits if_splits
           dest: append_receipt_raise)

lemma append_receipt_extends:
  "extends s0 s ops \<Longrightarrow> append_receipt e wo_id upd r s = (out, s') \<Longrightarrow>
     extends s0 s' ops \<or> (\<exists>v. extends s0 s' (ops @ [Put ''wo-receipt-updates'' wo_id v]))"
  by (auto simp: append_receipt_def split: sum.splits dest: extends_set)

lemma update_receipt_extends:
  "extends s0 s ops \<Longrightarrow> update_receipt e wo_id resp s = (out, s') \<Longrightarrow>
     extends s0 s' ops \<or> (\<exists>v. extends s0 s' (ops @ [Put ''wo-receipt-updates'' wo_id v]))"
  by (auto simp: update_receipt_def split: sum.splits option.splits if_splits
           dest: append_receipt_extends)

lemma update_receipt_mid:
  assumes "extends s0 s ops"
  shows "\<exists>mid. extends s0 (snd (update_receipt e wo_id resp s)) (ops @ mid) \<and> mid_ok wo_id mid"
proof -
  obtain out s' where U: "update_receipt e wo_id resp s = (out, s')"
    by (cases "update_receipt e wo_id resp s")
  from update_receipt_extends [OF assms U] show ?thesis
    unfolding U snd_conv mid_ok_def by (metis append_Nil2)
qed

lemma append_receipt_cong:
  "fst (append_receipt e wo_id upd r s) = fst (append_receipt e wo_id upd r t)"
  by (simp add: append_receipt_def split: sum.splits)

lemma update_receipt_cong:
  assumes "tables s = tables t"
  shows "fst (update_receipt e wo_id resp s) = fst (update_receipt e wo_id resp t)"
  unfolding update_receipt_def kv_get_cong [OF assms]
  by (simp add: append_receipt_cong [of e wo_id _ _ s t] split: sum.splits option.splits)

text \<open>
  C2. When the update sequence stored for a work order parses to a list whose last
  element has the update type COMPLETED, a call of \<^verbatim>\<open>__update_receipt\<close> for that work
  order, with any response, leaves the store as it was, whether it returns or raises; in
  particular the stored sequence is the one that was there and nothing is appended.
\<close>

theorem update_receipt_frozen:
  assumes "kv_get s ''wo-receipt-updates'' wo_id = Some u"
      and "json_loads e u = Some (PList us)"
      and "us \<noteq> []"
      and "py_getitem (last us) ''updateType'' = Inr ut"
      and "eq_ReceiptCreateStatus_COMPLETED_value e ut"
  shows "snd (update_receipt e wo_id resp s) = s
       \<and> kv_get (snd (update_receipt e wo_id resp s)) ''wo-receipt-updates'' wo_id = Some u"
  using assms
  by (simp add: update_receipt_def split: sum.splits option.splits)

theorem update_receipt_frozen_witness:
  \<open>kv_get frozen_store ''wo-receipt-updates'' ''wo1'' = Some ''[{"updateType": 1}]''
   \<and> json_loads demo_env ''[{"updateType": 1}]'' = Some (PList [PDict [(''updateType'', PInt 1)]])
   \<and> truthy (kv_get frozen_store ''wo-receipts'' ''wo1'')
   \<and> snd (update_receipt demo_env ''wo1'' (PDict []) frozen_store) = frozen_store
   \<and> kv_get (snd (update_receipt demo_env ''wo1'' (PDict []) frozen_store))
        ''wo-receipt-updates'' ''wo1'' = Some ''[{"updateType": 1}]''\<close>
  using update_receipt_frozen [of frozen_store "''wo1''" "''[{\"updateType\": 1}]''" demo_env
      "[PDict [(''updateType'', PInt 1)]]" "PInt 1" "PDict []"]
  by (simp add: frozen_store_def store_eval demo_eval)

section \<open>The steady-state transition\<close>

text \<open>
  A call that finds a request and returns has removed the id from \<^verbatim>\<open>wo-processing\<close>,
  stored a response that parses, and recorded FAILED when that response has a
  \<^verbatim>\<open>Response\<close> whose \<^verbatim>\<open>Status\<close> is \<^verbatim>\<open>WorkOrderStatus.FAILED\<close> and SUCCESS when it has not.
\<close>

lemma process_work_order_by_id_terminal:
  assumes req: "kv_get s ''wo-requests'' wo_id = Some wo_json_req"
      and ret: "process_work_order_by_id e wo_id s = (Inr r, s')"
  shows "kv_get s' ''wo-processing'' wo_id = None
       \<and> (\<exists>wo_json_resp wo_resp.
             kv_get s' ''wo-responses'' wo_id = Some wo_json_resp
           \<and> json_loads e wo_json_resp = Some wo_resp
           \<and> (kv_get s' ''wo-processed'' wo_id = Some ''FAILED''
                \<and> response_failed e wo_resp = Inr True
              \<or> kv_get s' ''wo-processed'' wo_id = Some ''SUCCESS''
                \<and> response_failed e wo_resp = Inr False))"
  using assms
  by (auto simp: process_work_order_by_id_def Let_def kv_get_set kv_get_remove
           split: sum.splits option.splits if_splits prod.splits bool.splits)

text \<open>
  Whether the receipt update returns depends on the receipt tables only, which the
  claim of the id does not touch.
\<close>

lemma update_receipt_depends:
  assumes "tables s ''wo-receipts'' = tables t ''wo-receipts''"
      and "tables s ''wo-receipt-updates'' = tables t ''wo-receipt-updates''"
  shows "fst (update_receipt e wo_id resp s) = fst (update_receipt e wo_id resp t)"
  using assms
  by (simp add: update_receipt_def kv_get_def append_receipt_cong [of e wo_id _ _ s t]
           split: sum.splits option.splits)

text \<open>
  The runs that do return: the request parses, the enclave answers, the answer parses
  back, the receipt update returns and the status of the response can be read. Then the
  call returns and the terminal record is the one C1 describes.
\<close>

lemma process_work_order_by_id_completes:
  assumes req: "kv_get s ''wo-requests'' wo_id = Some wo_json_req"
      and valid: "json_loads e wo_json_req = Some parsed"
      and exec: "sgx_execute e wo_json_req = Inr wo_response"
      and reparse: "json_loads e (json_dumps e (Some 4) wo_response) = Some wo_resp"
      and receipt: "fst (update_receipt e wo_id wo_resp s) = Inr u"
      and status: "response_failed e wo_resp = Inr failed"
  shows "fst (process_work_order_by_id e wo_id s) = Inr (if failed then PNone else wo_resp)
       \<and> kv_get (snd (process_work_order_by_id e wo_id s)) ''wo-processing'' wo_id = None
       \<and> kv_get (snd (process_work_order_by_id e wo_id s)) ''wo-scheduled'' wo_id = None
       \<and> kv_get (snd (process_work_order_by_id e wo_id s)) ''wo-responses'' wo_id
           = Some (json_dumps e (Some 4) wo_response)
       \<and> kv_get (snd (process_work_order_by_id e wo_id s)) ''wo-processed'' wo_id
           = Some (if failed then ''FAILED'' else ''SUCCESS'')"
proof -
  define s3 where "s3 = kv_remove (kv_set (kv_set s ''wo-processing'' wo_id ''PROCESSING'')
                    ''wo-processing'' wo_id ''PROCESSING'') ''wo-scheduled'' wo_id"
  have "fst (update_receipt e wo_id wo_resp s3) = fst (update_receipt e wo_id wo_resp s)"
    by (rule update_receipt_depends) (simp_all add: s3_def tables_kv_set tables_kv_remove)
  with receipt obtain s4 where U: "update_receipt e wo_id wo_resp s3 = (Inr u, s4)"
    by (cases "update_receipt e wo_id wo_resp s3") auto
  have s4: "kv_get s4 ''wo-scheduled'' wo_id = None"
    using update_receipt_other [OF U, of "''wo-scheduled''"]
    by (simp add: kv_get_def s3_def tables_kv_set tables_kv_remove delete_conv')
  show ?thesis
    using req valid exec reparse status U s4
    by (simp add: process_work_order_by_id_def validate_request_def execute_work_order_def
                  Let_def kv_get_set kv_get_remove s3_def [symmetric])
qed

text \<open>
  C1 as the code has it. For an id that was claimed (the request is there), a request
  that does not parse, or an enclave call that raises, ends the call with an exception:
  \<^verbatim>\<open>NameError\<close> from the failure branch of the validation, \<^verbatim>\<open>UnboundLocalError\<close> from the
  handler in \<^verbatim>\<open>_execute_work_order\<close>. Both handlers set out to build a FAILED response and
  use a name that is not bound. After the call the id is still under \<^verbatim>\<open>wo-processing\<close>,
  gone from \<^verbatim>\<open>wo-scheduled\<close>, and neither \<^verbatim>\<open>wo-processed\<close> nor \<^verbatim>\<open>wo-responses\<close> was
  written.
\<close>

theorem claimed_id_stranded:
  assumes "kv_get s ''wo-requests'' wo_id = Some wo_json_req"
      and "json_loads e wo_json_req = None \<or> sgx_execute e wo_json_req = Inl x"
  shows "fst (process_work_order_by_id e wo_id s)
           = Inl (if json_loads e wo_json_req = None then NameError else UnboundLocalError)
       \<and> kv_get (snd (process_work_order_by_id e wo_id s)) ''wo-processing'' wo_id
           = Some ''PROCESSING''
       \<and> kv_get (snd (process_work_order_by_id e wo_id s)) ''wo-scheduled'' wo_id = None
       \<and> kv_get (snd (process_work_order_by_id e wo_id s)) ''wo-processed'' wo_id
           = kv_get s ''wo-processed'' wo_id
       \<and> kv_get (snd (process_work_order_by_id e wo_id s)) ''wo-responses'' wo_id
           = kv_get s ''wo-responses'' wo_id"
  using assms
  by (auto simp: process_work_order_by_id_def validate_request_def execute_work_order_def
                 Let_def kv_get_set kv_get_remove
           split: option.splits)

text \<open>
  Scenario A with an enclave call that raises, and scenario B with the enclave of
  scenario A: in both the claimed id ends under \<^verbatim>\<open>wo-processing\<close> with no outcome.
\<close>

theorem claimed_id_stranded_witness:
  "kv_get scenario_A ''wo-requests'' ''wo1'' = Some ''{}''
   \<and> sgx_execute faulty_env ''{}'' = Inl (External ''enclave'')
   \<and> fst (process_work_order_by_id faulty_env ''wo1'' scenario_A) = Inl UnboundLocalError
   \<and> kv_get (snd (process_work_order_by_id faulty_env ''wo1'' scenario_A)) ''wo-processing'' ''wo1''
       = Some ''PROCESSING''
   \<and> kv_get (snd (process_work_order_by_id faulty_env ''wo1'' scenario_A)) ''wo-processed'' ''wo1''
       = None
   \<and> kv_get (snd (process_work_order_by_id faulty_env ''wo1'' scenario_A)) ''wo-responses'' ''wo1''
       = None
   \<and> kv_get scenario_B ''wo-requests'' ''wo2'' = Some ''{not json''
   \<and> fst (process_work_order_by_id demo_env ''wo2'' scenario_B) = Inl NameError
   \<and> kv_get (snd (process_work_order_by_id demo_env ''wo2'' scenario_B)) ''wo-processing'' ''wo2''
       = Some ''PROCESSING''
   \<and> kv_get (snd (process_work_order_by_id demo_env ''wo2'' scenario_B)) ''wo-processed'' ''wo2''
       = None"
proof -
  have a: "kv_get scenario_A ''wo-requests'' ''wo1'' = Some ''{}''"
    "kv_get scenario_A ''wo-processed'' ''wo1'' = None"
    "kv_get scenario_A ''wo-responses'' ''wo1'' = None"
    by (simp_all add: scenario_A_def store_eval)
  have x: "sgx_execute faulty_env ''{}'' = Inl (External ''enclave'')"
    "json_loads faulty_env ''{}'' = Some (PDict [])"
    by (simp_all add: faulty_env_def demo_eval)
  have b: "kv_get scenario_B ''wo-requests'' ''wo2'' = Some ''{not json''"
    "kv_get scenario_B ''wo-processed'' ''wo2'' = None"
    by (simp_all add: scenario_B_def store_eval)
  have n: "json_loads demo_env ''{not json'' = None"
    by (simp add: demo_eval)
  from claimed_id_stranded [OF a(1), of faulty_env "External ''enclave''"]
       claimed_id_stranded [OF b(1), of demo_env]
       a x b n
  show ?thesis by simp
qed

text \<open>
  C4 as the code has it. A request that \<^verbatim>\<open>json.loads\<close> rejects makes
  \<^verbatim>\<open>process_work_order_by_id\<close> raise \<^verbatim>\<open>NameError\<close>: by then the id is under
  \<^verbatim>\<open>wo-processing\<close> and gone from \<^verbatim>\<open>wo-scheduled\<close>, and neither \<^verbatim>\<open>wo-processed\<close> nor
  \<^verbatim>\<open>wo-responses\<close> has been written. No FAILED outcome is recorded.
\<close>

theorem invalid_request_raises:
  assumes "kv_get s ''wo-requests'' wo_id = Some wo_json_req"
      and "json_loads e wo_json_req = None"
  shows "fst (process_work_order_by_id e wo_id s) = Inl NameError
       \<and> kv_get (snd (process_work_order_by_id e wo_id s)) ''wo-processing'' wo_id
           = Some ''PROCESSING''
       \<and> kv_get (snd (process_work_order_by_id e wo_id s)) ''wo-scheduled'' wo_id = None
       \<and> kv_get (snd (process_work_order_by_id e wo_id s)) ''wo-processed'' wo_id
           = kv_get s ''wo-processed'' wo_id
       \<and> kv_get (snd (process_work_order_by_id e wo_id s)) ''wo-responses'' wo_id
           = kv_get s ''wo-responses'' wo_id"
  using assms
  by (simp add: process_work_order_by_id_def validate_request_def Let_def kv_get_set kv_get_remove)

text \<open>
  Scenario B: \<^verbatim>\<open>wo2\<close> is left under \<^verbatim>\<open>wo-processing\<close> with no outcome, and the polling
  sweep ends with the exception, so \<^verbatim>\<open>wo4\<close> behind it stays scheduled and unprocessed.
\<close>

theorem invalid_request_raises_witness:
  "kv_get scenario_B ''wo-requests'' ''wo2'' = Some ''{not json''
   \<and> json_loads demo_env ''{not json'' = None
   \<and> fst (process_work_order_by_id demo_env ''wo2'' scenario_B) = Inl NameError
   \<and> kv_get (snd (process_work_order_by_id demo_env ''wo2'' scenario_B)) ''wo-processing'' ''wo2''
       = Some ''PROCESSING''
   \<and> kv_get (snd (process_work_order_by_id demo_env ''wo2'' scenario_B)) ''wo-processed'' ''wo2''
       = None
   \<and> kv_get (snd (process_work_order_by_id demo_env ''wo2'' scenario_B)) ''wo-responses'' ''wo2''
       = None
   \<and> fst (process_work_orders demo_env scenario_B) = Inl NameError
   \<and> kv_get (snd (process_work_orders demo_env scenario_B)) ''wo-scheduled'' ''wo4''
       = Some ''SCHEDULED''
   \<and> kv_get (snd (process_work_orders demo_env scenario_B)) ''wo-processed'' ''wo4'' = None"
proof -
  have req: "kv_get scenario_B ''wo-requests'' ''wo2'' = Some ''{not json''"
    by (simp add: scenario_B_def store_eval)
  have bad: "json_loads demo_env ''{not json'' = None"
    by (simp add: demo_eval)
  have before: "kv_get scenario_B ''wo-processed'' ''wo2'' = None"
    "kv_get scenario_B ''wo-responses'' ''wo2'' = None"
    by (simp_all add: scenario_B_def store_eval)
  have sweep: "fst (process_work_orders demo_env scenario_B) = Inl NameError
   \<and> kv_get (snd (process_work_orders demo_env scenario_B)) ''wo-scheduled'' ''wo4''
       = Some ''SCHEDULED''
   \<and> kv_get (snd (process_work_orders demo_env scenario_B)) ''wo-processed'' ''wo4'' = None"
    by (simp add: scenario_B_def store_eval demo_eval manager_eval)
  from invalid_request_raises [OF req bad] req bad before sweep show ?thesis by simp
qed

text \<open>The writes of the transition, phase by phase.\<close>

lemma claim_extends:
  "extends s
     (kv_remove (kv_set (kv_set s ''wo-processing'' wo_id ''PROCESSING'')
                   ''wo-processing'' wo_id ''PROCESSING'') ''wo-scheduled'' wo_id)
     (claim_ops wo_id)"
  using extends_remove [OF extends_set [OF extends_set [OF extends_refl]]]
  by (simp add: claim_ops_def)

lemma finish_extends:
  "extends s s4 ops \<Longrightarrow>
   extends s (finish s4 wo_id st r)
     (ops @ [Put ''wo-processed'' wo_id st, Put ''wo-responses'' wo_id r,
             Del ''wo-processing'' wo_id])"
  unfolding finish_def
  using extends_remove [OF extends_set [OF extends_set]]
  by fastforce

lemma process_store_cases:
  assumes req: "kv_get (kv_set s ''wo-processing'' wo_id ''PROCESSING'') ''wo-requests'' wo_id
                  = Some req"
  defines "s3 \<equiv> kv_remove (kv_set (kv_set s ''wo-processing'' wo_id ''PROCESSING'')
                    ''wo-processing'' wo_id ''PROCESSING'') ''wo-scheduled'' wo_id"
  shows "snd (process_work_order_by_id e wo_id s) = s3
       \<or> (\<exists>resp. snd (process_work_order_by_id e wo_id s) = snd (update_receipt e wo_id resp s3))
       \<or> (\<exists>resp st r. snd (process_work_order_by_id e wo_id s)
             = finish (snd (update_receipt e wo_id resp s3)) wo_id st r)"
proof (cases "validate_request e req")
  case False
  then show ?thesis using req by (simp add: process_work_order_by_id_def s3_def)
next
  case valid: True
  show ?thesis
  proof (cases "execute_work_order e req")
    case (Inl x)
    then show ?thesis using req valid by (simp add: process_work_order_by_id_def s3_def)
  next
    case exec: (Inr wo_json_resp)
    show ?thesis
    proof (cases "json_loads e wo_json_resp")
      case None
      then show ?thesis using req valid exec by (simp add: process_work_order_by_id_def s3_def)
    next
      case loads: (Some wo_resp)
      obtain out4 s4 where U: "update_receipt e wo_id wo_resp s3 = (out4, s4)"
        by (cases "update_receipt e wo_id wo_resp s3")
      have s4: "s4 = snd (update_receipt e wo_id wo_resp s3)" using U by simp
      have "snd (process_work_order_by_id e wo_id s) = s4
          \<or> (\<exists>st. snd (process_work_order_by_id e wo_id s) = finish s4 wo_id st wo_json_resp)"
        using req valid exec loads U
        by (simp add: process_work_order_by_id_def Let_def s3_def [symmetric] finish_def
                 split: sum.splits bool.splits; blast)
      then show ?thesis unfolding s4 by blast
    qed
  qed
qed

lemma process_ops:
  "\<exists>ops. extends s (snd (process_work_order_by_id e wo_id s)) ops \<and>
     (ops = [Put ''wo-processing'' wo_id ''PROCESSING'', Del ''wo-processing'' wo_id]
      \<or> (\<exists>mid fin. ops = claim_ops wo_id @ mid @ fin \<and> mid_ok wo_id mid \<and> fin_ok wo_id fin))"
proof (cases "kv_get (kv_set s ''wo-processing'' wo_id ''PROCESSING'') ''wo-requests'' wo_id")
  case None
  then have "snd (process_work_order_by_id e wo_id s)
     = kv_remove (kv_set s ''wo-processing'' wo_id ''PROCESSING'') ''wo-processing'' wo_id"
    by (simp add: process_work_order_by_id_def)
  moreover have "extends s
      (kv_remove (kv_set s ''wo-processing'' wo_id ''PROCESSING'') ''wo-processing'' wo_id)
      [Put ''wo-processing'' wo_id ''PROCESSING'', Del ''wo-processing'' wo_id]"
    using extends_remove [OF extends_set [OF extends_refl]] by simp
  ultimately show ?thesis by auto
next
  case (Some req)
  define s3 where "s3 = kv_remove (kv_set (kv_set s ''wo-processing'' wo_id ''PROCESSING'')
                    ''wo-processing'' wo_id ''PROCESSING'') ''wo-scheduled'' wo_id"
  have s3: "extends s s3 (claim_ops wo_id)" unfolding s3_def by (rule claim_extends)
  let ?s' = "snd (process_work_order_by_id e wo_id s)"
  from process_store_cases [OF Some, of e]
  consider (a) "?s' = s3"
    | (b) resp where "?s' = snd (update_receipt e wo_id resp s3)"
    | (c) resp st r where "?s' = finish (snd (update_receipt e wo_id resp s3)) wo_id st r"
    unfolding s3_def by blast
  then have "\<exists>mid fin. extends s ?s' (claim_ops wo_id @ mid @ fin)
                \<and> mid_ok wo_id mid \<and> fin_ok wo_id fin"
  proof cases
    case a
    have "extends s ?s' (claim_ops wo_id @ [] @ [])" using s3 a by simp
    then show ?thesis unfolding mid_ok_def fin_ok_def by blast
  next
    case b
    from update_receipt_mid [OF s3, of e wo_id resp] obtain mid
      where "extends s ?s' (claim_ops wo_id @ mid @ [])" "mid_ok wo_id mid" using b by auto
    then show ?thesis unfolding fin_ok_def by blast
  next
    case c
    from update_receipt_mid [OF s3, of e wo_id resp] obtain mid
      where m: "extends s (snd (update_receipt e wo_id resp s3)) (claim_ops wo_id @ mid)"
        "mid_ok wo_id mid" by auto
    from finish_extends [OF m(1), of wo_id st r]
    have "extends s ?s' (claim_ops wo_id @ mid
            @ [Put ''wo-processed'' wo_id st, Put ''wo-responses'' wo_id r,
               Del ''wo-processing'' wo_id])"
      using c by simp
    then show ?thesis using m(2) unfolding fin_ok_def by blast
  qed
  then show ?thesis by blast
qed

lemma first_put_precedes:
  "ops = Put t k v # rest \<Longrightarrow> ops = pre @ Del t' k' # post \<Longrightarrow> Put t k v \<in> set pre"
  by (cases pre) auto

lemma held_claim_states:
  assumes "mid_ok wo_id mid" "fin_ok wo_id fin" "wo_id \<in> set (map fst (T ''wo-scheduled''))"
  shows "\<forall>U \<in> set (crash_states T (claim_ops wo_id @ mid @ fin)). held U wo_id"
  using assms
  by (auto simp: mid_ok_def fin_ok_def claim_ops_def held_def dom_update)

text \<open>
  C7. The writes that \<^verbatim>\<open>process_work_order_by_id\<close> issues, in their order, are the
  journal entries \<open>ops\<close> it appends, and they account for the tables it leaves. In every
  run, whatever comes before a removal of the id from \<^verbatim>\<open>wo-scheduled\<close> includes the write
  of the PROCESSING marker under \<^verbatim>\<open>wo-processing\<close>. And when the id was scheduled, the
  tables after every proper prefix of \<open>ops\<close> - the states a crash between two writes can
  leave - list the id under \<^verbatim>\<open>wo-scheduled\<close> or under \<^verbatim>\<open>wo-processing\<close>.
\<close>

theorem processing_marked_before_unscheduled:
  "\<exists>ops. journal (snd (process_work_order_by_id e wo_id s)) = journal s @ ops
       \<and> tables (snd (process_work_order_by_id e wo_id s)) = fold apply_op ops (tables s)
       \<and> (\<forall>pre post. ops = pre @ Del ''wo-scheduled'' wo_id # post
             \<longrightarrow> Put ''wo-processing'' wo_id ''PROCESSING'' \<in> set pre)
       \<and> (wo_id \<in> set (kv_lookup s ''wo-scheduled'')
             \<longrightarrow> (\<forall>T \<in> set (crash_states (tables s) ops). held T wo_id))"
proof -
  from process_ops [of s e wo_id] obtain ops where
    ext: "extends s (snd (process_work_order_by_id e wo_id s)) ops" and
    shape: "ops = [Put ''wo-processing'' wo_id ''PROCESSING'', Del ''wo-processing'' wo_id]
      \<or> (\<exists>mid fin. ops = claim_ops wo_id @ mid @ fin \<and> mid_ok wo_id mid \<and> fin_ok wo_id fin)"
    by blast
  from shape obtain rest where hd: "ops = Put ''wo-processing'' wo_id ''PROCESSING'' # rest"
    by (auto simp: claim_ops_def)
  have order: "\<forall>pre post. ops = pre @ Del ''wo-scheduled'' wo_id # post
             \<longrightarrow> Put ''wo-processing'' wo_id ''PROCESSING'' \<in> set pre"
    using first_put_precedes [OF hd] by blast
  have held: "wo_id \<in> set (kv_lookup s ''wo-scheduled'')
             \<longrightarrow> (\<forall>T \<in> set (crash_states (tables s) ops). held T wo_id)"
  proof
    assume sch: "wo_id \<in> set (kv_lookup s ''wo-scheduled'')"
    from shape show "\<forall>T \<in> set (crash_states (tables s) ops). held T wo_id"
    proof
      assume "ops = [Put ''wo-processing'' wo_id ''PROCESSING'', Del ''wo-processing'' wo_id]"
      then show ?thesis using sch by (auto simp: held_def kv_lookup_def)
    next
      assume "\<exists>mid fin. ops = claim_ops wo_id @ mid @ fin \<and> mid_ok wo_id mid \<and> fin_ok wo_id fin"
      then show ?thesis using sch held_claim_states [of wo_id _ _ "tables s"]
        by (auto simp: kv_lookup_def)
    qed
  qed
  from ext order held show ?thesis unfolding extends_def by blast
qed

theorem processing_marked_before_unscheduled_witness:
  "''wo1'' \<in> set (kv_lookup scenario_A ''wo-scheduled'')
   \<and> journal (snd (process_work_order_by_id demo_env ''wo1'' scenario_A))
       = [Put ''wo-processing'' ''wo1'' ''PROCESSING'', Put ''wo-processing'' ''wo1'' ''PROCESSING'',
          Del ''wo-scheduled'' ''wo1'', Put ''wo-processed'' ''wo1'' ''SUCCESS'',
          Put ''wo-responses'' ''wo1'' ''{}'', Del ''wo-processing'' ''wo1'']
   \<and> (\<exists>ops. journal (snd (process_work_order_by_id demo_env ''wo1'' scenario_A))
               = journal scenario_A @ ops
           \<and> (\<forall>pre post. ops = pre @ Del ''wo-scheduled'' ''wo1'' # post
                 \<longrightarrow> Put ''wo-processing'' ''wo1'' ''PROCESSING'' \<in> set pre)
           \<and> (\<forall>T \<in> set (crash_states (tables scenario_A) ops). held T ''wo1''))"
proof -
  have sch: "''wo1'' \<in> set (kv_lookup scenario_A ''wo-scheduled'')"
    by (simp add: scenario_A_def store_eval)
  have j: "journal (snd (process_work_order_by_id demo_env ''wo1'' scenario_A))
       = [Put ''wo-processing'' ''wo1'' ''PROCESSING'', Put ''wo-processing'' ''wo1'' ''PROCESSING'',
          Del ''wo-scheduled'' ''wo1'', Put ''wo-processed'' ''wo1'' ''SUCCESS'',
          Put ''wo-responses'' ''wo1'' ''{}'', Del ''wo-processing'' ''wo1'']"
    by (simp add: scenario_A_def store_eval demo_eval manager_eval)
  from processing_marked_before_unscheduled [of demo_env "''wo1''" scenario_A] sch j
  show ?thesis by blast
qed

section \<open>Boot recovery\<close>

text \<open>What one step of the sweep can do to the store, case by case.\<close>

lemma boot_wo_cases:
  "(\<exists>x. boot_wo e wo s = (Inl x, s))
   \<or> (kv_get s ''wo-responses'' wo = None
       \<and> boot_wo e wo s
           = (Inr PNone, kv_remove (kv_set s ''wo-scheduled'' wo ''SCHEDULED'') ''wo-processing'' wo))
   \<or> (\<exists>st base. kv_get s ''wo-responses'' wo \<noteq> None
       \<and> (\<forall>t. t \<noteq> ''wo-receipt-updates'' \<longrightarrow> tables base t = tables s t)
       \<and> boot_wo e wo s
           = (Inr PNone,
              kv_remove (set_processed_if_unset (kv_get s ''wo-processed'' wo) wo st base)
                ''wo-processing'' wo))"
proof (cases "kv_get s ''wo-responses'' wo")
  case None
  then show ?thesis by (simp add: boot_wo_def)
next
  case resp: (Some resp_str)
  have direct: ?thesis
    if "boot_wo e wo s
          = (Inr PNone,
             kv_remove (set_processed_if_unset (kv_get s ''wo-processed'' wo) wo st s)
               ''wo-processing'' wo)" for st
    using that resp by auto
  show ?thesis
  proof (cases "json_loads e resp_str")
    case None
    then show ?thesis using resp by (intro direct [of "''FAILED''"]) (simp add: boot_wo_def)
  next
    case loads: (Some wo_resp)
    show ?thesis
    proof (cases "response_failed e wo_resp")
      case (Inl x)
      then show ?thesis using resp loads by (simp add: boot_wo_def)
    next
      case failed: (Inr b)
      show ?thesis
      proof (cases b)
        case True
        then show ?thesis using resp loads failed
          by (intro direct [of "''FAILED''"]) (simp add: boot_wo_def)
      next
        case False
        show ?thesis
        proof (cases "truthy (kv_get s ''wo-receipts'' wo)")
          case no_receipt: False
          then show ?thesis using resp loads failed False
            by (intro direct [of "''SUCCESS''"]) (simp add: boot_wo_def)
        next
          case True
          obtain out s1 where U: "update_receipt e wo (PStr resp_str) s = (out, s1)"
            by (cases "update_receipt e wo (PStr resp_str) s")
          show ?thesis
          proof (cases out)
            case (Inl x)
            with U have "s1 = s" by (auto dest: update_receipt_raise)
            then show ?thesis using resp loads failed False True U Inl by (simp add: boot_wo_def)
          next
            case (Inr v)
            have "boot_wo e wo s
              = (Inr PNone,
                 kv_remove (set_processed_if_unset (kv_get s ''wo-processed'' wo) wo ''SUCCESS''
                              (snd (update_receipt e wo (PStr resp_str) s))) ''wo-processing'' wo)"
              using resp loads failed False True U Inr by (simp add: boot_wo_def)
            moreover have "\<forall>t. t \<noteq> ''wo-receipt-updates''
                \<longrightarrow> tables (snd (update_receipt e wo (PStr resp_str) s)) t = tables s t"
              by (simp add: update_receipt_snd_other)
            ultimately show ?thesis using resp by blast
          qed
        qed
      qed
    qed
  qed
qed

lemma tables_set_processed_if_unset:
  "t \<noteq> ''wo-processed'' \<Longrightarrow> tables (set_processed_if_unset p wo st s) t = tables s t"
  by (simp add: set_processed_if_unset_def tables_kv_set)

lemma boot_wo_raise: "boot_wo e wo s = (Inl x, s') \<Longrightarrow> s' = s"
  using boot_wo_cases [of e wo s] by auto

lemma boot_wo_processing:
  assumes "boot_wo e wo s = (Inr r, s')"
  shows "tables s' ''wo-processing'' = AList.delete wo (tables s ''wo-processing'')"
  using boot_wo_cases [of e wo s] assms
  by (auto simp: tables_kv_set tables_kv_remove tables_set_processed_if_unset)

lemma boot_wo_workers:
  assumes "boot_wo e wo s = (out, s')"
  shows "tables s' ''workers'' = tables s ''workers''"
  using boot_wo_cases [of e wo s] assms
  by (auto simp: tables_kv_set tables_kv_remove tables_set_processed_if_unset)

lemma boot_wo_responses:
  assumes "boot_wo e wo s = (out, s')"
  shows "tables s' ''wo-responses'' = tables s ''wo-responses''"
  using boot_wo_cases [of e wo s] assms
  by (auto simp: tables_kv_set tables_kv_remove tables_set_processed_if_unset)

lemma boot_wo_scheduled:
  assumes "boot_wo e wo s = (out, s')"
  shows "tables s' ''wo-scheduled'' = tables s ''wo-scheduled''
       \<or> kv_get s ''wo-responses'' wo = None \<and> out = Inr PNone
          \<and> tables s' ''wo-scheduled'' = AList.update wo ''SCHEDULED'' (tables s ''wo-scheduled'')"
  using boot_wo_cases [of e wo s] assms
  by (auto simp: tables_kv_set tables_kv_remove tables_set_processed_if_unset)

text \<open>The outcome of a step depends on the tables only, not on the journal.\<close>

lemma boot_wo_cong:
  assumes "tables s = tables t"
  shows "fst (boot_wo e wo s) = fst (boot_wo e wo t)"
  unfolding boot_wo_def kv_get_cong [OF assms] Let_def
  using update_receipt_cong [OF assms, of e wo]
  by (simp split: sum.splits option.splits bool.splits prod.splits add: split_beta)

text \<open>Clearing the workers table empties it and touches no other table.\<close>

lemma fold_remove_other:
  "t' \<noteq> t \<Longrightarrow> tables (fold (\<lambda>worker st. kv_remove st t worker) ws s) t' = tables s t'"
  by (induction ws arbitrary: s) (simp_all add: tables_kv_remove)

lemma fold_remove_keys:
  "map fst (tables (fold (\<lambda>worker st. kv_remove st t worker) ws s) t)
     = filter (\<lambda>k. k \<notin> set ws) (map fst (tables s t))"
proof (induction ws arbitrary: s)
  case Nil
  then show ?case by simp
next
  case (Cons w ws)
  have "filter (\<lambda>k. k \<notin> set ws) (removeAll w (map fst (tables s t)))
      = filter (\<lambda>k. k \<notin> set (w # ws)) (map fst (tables s t))"
    by (auto simp: removeAll_filter_not_eq intro: filter_cong)
  then show ?case by (simp add: Cons.IH tables_kv_remove delete_keys)
qed

lemma tables_clear_workers:
  "tables (clear_workers s) t = (if t = ''workers'' then [] else tables s t)"
proof (cases "t = ''workers''")
  case True
  have "map fst (tables (clear_workers s) ''workers'') = []"
    unfolding clear_workers_def fold_remove_keys by (simp add: kv_lookup_def)
  then show ?thesis using True by simp
next
  case False
  then show ?thesis by (simp add: clear_workers_def fold_remove_other)
qed

lemma delete_first_key:
  "map fst al = wo # rest \<Longrightarrow> distinct (map fst al) \<Longrightarrow> map fst (AList.delete wo al) = rest"
  by (simp add: delete_keys)

lemma boot_each_returns_None: "boot_each e ws s = (Inr r, s') \<Longrightarrow> r = PNone"
  by (induction ws arbitrary: s) (auto split: prod.splits sum.splits)

text \<open>
  The sweep over all ids of \<^verbatim>\<open>wo-processing\<close>: when it returns the table is empty; when
  it raises, the id it raised on heads what is left of the table, and the step for that
  id raises again on the store the sweep left.
\<close>

lemma boot_each_sweep:
  assumes "boot_each e ws s0 = (out, s')"
      and "map fst (tables s0 ''wo-processing'') = ws"
      and "distinct ws"
  shows "tables s' ''workers'' = tables s0 ''workers''
       \<and> (case out of
             Inr r \<Rightarrow> tables s' ''wo-processing'' = []
           | Inl x \<Rightarrow> (\<exists>wo rest. map fst (tables s' ''wo-processing'') = wo # rest
                         \<and> boot_wo e wo s' = (Inl x, s')))"
  using assms
proof (induction ws arbitrary: s0)
  case Nil
  then show ?case by auto
next
  case (Cons wo rest)
  obtain o1 s1 where B: "boot_wo e wo s0 = (o1, s1)" by (cases "boot_wo e wo s0")
  show ?case
  proof (cases o1)
    case (Inl x)
    with B have "s1 = s0" by (auto dest: boot_wo_raise)
    with B Inl Cons.prems show ?thesis by auto
  next
    case (Inr r)
    from B Inr
    have proc: "tables s1 ''wo-processing'' = AList.delete wo (tables s0 ''wo-processing'')"
      by (auto dest: boot_wo_processing)
    have keys: "map fst (tables s1 ''wo-processing'') = rest"
      unfolding proc using Cons.prems(2,3) by (intro delete_first_key) auto
    have rest: "boot_each e rest s1 = (out, s')" using Cons.prems(1) B Inr by simp
    from Cons.IH [OF rest keys] Cons.prems(3) boot_wo_workers [OF B]
    show ?thesis by simp
  qed
qed

text \<open>
  C3. On a store whose \<^verbatim>\<open>wo-processing\<close> table has each key once, as a key-value table
  has, running \<^verbatim>\<open>manager_on_boot\<close> a second time on the store the first run left changes
  no table, and ends as the first run ended (it returns, or raises the same exception).
  This covers a first run that was cut short by an exception.
\<close>

theorem manager_on_boot_idempotent:
  assumes "distinct (kv_lookup s ''wo-processing'')"
  shows "tables (snd (manager_on_boot e (snd (manager_on_boot e s))))
           = tables (snd (manager_on_boot e s))
       \<and> fst (manager_on_boot e (snd (manager_on_boot e s))) = fst (manager_on_boot e s)"
proof (cases "create_json_worker e")
  case (Inl x)
  have "manager_on_boot e s = (Inl x, clear_workers s)"
    by (simp add: manager_on_boot_def Inl)
  moreover have "manager_on_boot e (clear_workers s) = (Inl x, clear_workers (clear_workers s))"
    by (simp add: manager_on_boot_def Inl)
  moreover have "tables (clear_workers (clear_workers s)) = tables (clear_workers s)"
    by (simp add: fun_eq_iff tables_clear_workers)
  ultimately show ?thesis by simp
next
  case (Inr worker_info)
  define publish
    where "publish st = kv_set (clear_workers st) ''workers'' (worker_id e) worker_info" for st
  have boot: "manager_on_boot e st
      = boot_each e (kv_lookup (publish st) ''wo-processing'') (publish st)" for st
    by (simp add: manager_on_boot_def Inr publish_def Let_def)
  have pub: "tables (publish st) t
      = (if t = ''workers'' then [(worker_id e, worker_info)] else tables st t)" for st t
    by (simp add: publish_def tables_kv_set tables_clear_workers)
  obtain out s'
    where first: "boot_each e (kv_lookup (publish s) ''wo-processing'') (publish s) = (out, s')"
    by (cases "boot_each e (kv_lookup (publish s) ''wo-processing'') (publish s)")
  have d: "distinct (kv_lookup (publish s) ''wo-processing'')"
    using assms by (simp add: kv_lookup_def pub)
  from boot_each_sweep [OF first _ d]
  have w: "tables s' ''workers'' = [(worker_id e, worker_info)]"
    and sweep: "case out of
             Inr r \<Rightarrow> tables s' ''wo-processing'' = []
           | Inl x \<Rightarrow> (\<exists>wo rest. map fst (tables s' ''wo-processing'') = wo # rest
                         \<and> boot_wo e wo s' = (Inl x, s'))"
    by (simp_all add: kv_lookup_def pub)
  have same: "tables (publish s') = tables s'"
    using w by (auto simp: fun_eq_iff pub)
  have second: "tables (snd (manager_on_boot e s')) = tables s' \<and> fst (manager_on_boot e s') = out"
  proof (cases out)
    case (Inr r)
    with sweep have "kv_lookup (publish s') ''wo-processing'' = []"
      by (simp add: kv_lookup_def same)
    moreover from first Inr have "out = Inr PNone"
      by (auto dest: boot_each_returns_None)
    ultimately show ?thesis by (simp add: boot same)
  next
    case (Inl x)
    with sweep obtain wo rest where k: "map fst (tables s' ''wo-processing'') = wo # rest"
      and r: "boot_wo e wo s' = (Inl x, s')" by auto
    have "fst (boot_wo e wo (publish s')) = Inl x"
      using boot_wo_cong [OF same, of e wo] r by simp
    then have "boot_wo e wo (publish s') = (Inl x, publish s')"
      by (cases "boot_wo e wo (publish s')") (auto dest: boot_wo_raise)
    then have "manager_on_boot e s' = (Inl x, publish s')"
      using k by (simp add: boot kv_lookup_def same)
    then show ?thesis using Inl same by simp
  qed
  show ?thesis using second first by (simp add: boot [of s])
qed

text \<open>
  Two instances: scenario C, where the sweep returns and \<^verbatim>\<open>wo3\<close> ends up scheduled, and
  the store on which the sweep raises at \<^verbatim>\<open>wo0\<close>.
\<close>

theorem manager_on_boot_idempotent_witness:
  "distinct (kv_lookup scenario_C ''wo-processing'')
   \<and> fst (manager_on_boot demo_env scenario_C) = Inr PNone
   \<and> tables (snd (manager_on_boot demo_env (snd (manager_on_boot demo_env scenario_C))))
       = tables (snd (manager_on_boot demo_env scenario_C))
   \<and> distinct (kv_lookup stuck_store ''wo-processing'')
   \<and> fst (manager_on_boot demo_env stuck_store) = Inl TypeError
   \<and> tables (snd (manager_on_boot demo_env (snd (manager_on_boot demo_env stuck_store))))
       = tables (snd (manager_on_boot demo_env stuck_store))"
proof -
  have c: "distinct (kv_lookup scenario_C ''wo-processing'')"
    by (simp add: scenario_C_def store_eval)
  have d: "distinct (kv_lookup stuck_store ''wo-processing'')"
    by (simp add: stuck_store_def store_eval)
  have oc: "fst (manager_on_boot demo_env scenario_C) = Inr PNone"
    by (simp add: scenario_C_def store_eval demo_eval manager_eval)
  have od: "fst (manager_on_boot demo_env stuck_store) = Inl TypeError"
    by (simp add: stuck_store_def store_eval demo_eval manager_eval)
  from manager_on_boot_idempotent [OF c, of demo_env] manager_on_boot_idempotent [OF d, of demo_env]
    c d oc od
  show ?thesis by simp
qed

lemma boot_each_rescheduled:
  assumes "boot_each e ws s0 = (Inr r, s')"
  shows "(\<forall>wo \<in> set ws. kv_get s0 ''wo-responses'' wo = None
            \<longrightarrow> wo \<in> set (kv_lookup s' ''wo-scheduled''))
       \<and> set (kv_lookup s0 ''wo-scheduled'') \<subseteq> set (kv_lookup s' ''wo-scheduled'')
       \<and> set (kv_lookup s' ''wo-processing'') \<subseteq> set (kv_lookup s0 ''wo-processing'') - set ws"
  using assms
proof (induction ws arbitrary: s0)
  case Nil
  then show ?case by simp
next
  case (Cons wo rest)
  obtain o1 s1 where B: "boot_wo e wo s0 = (o1, s1)" by (cases "boot_wo e wo s0")
  with Cons.prems obtain r1 where o1: "o1 = Inr r1" and rest: "boot_each e rest s1 = (Inr r, s')"
    by (cases o1) auto
  note IH = Cons.IH [OF rest]
  have resp: "kv_get s1 ''wo-responses'' k = kv_get s0 ''wo-responses'' k" for k
    using boot_wo_responses [OF B] by (simp add: kv_get_def)
  have sched: "set (kv_lookup s0 ''wo-scheduled'') \<subseteq> set (kv_lookup s1 ''wo-scheduled'')"
    using boot_wo_scheduled [OF B] by (force simp: kv_lookup_def dom_update)
  have this_wo: "kv_get s0 ''wo-responses'' wo = None \<Longrightarrow> wo \<in> set (kv_lookup s1 ''wo-scheduled'')"
    using boot_wo_cases [of e wo s0] B o1
    by (auto simp: kv_lookup_def tables_kv_set tables_kv_remove dom_update)
  have proc: "set (kv_lookup s1 ''wo-processing'') = set (kv_lookup s0 ''wo-processing'') - {wo}"
    using boot_wo_processing [of e wo s0 r1 s1] B o1 by (simp add: kv_lookup_def delete_keys)
  show ?case using IH resp sched this_wo proc by auto
qed

text \<open>
  When the sweep returns, every id that was under \<^verbatim>\<open>wo-processing\<close> with no response is
  under \<^verbatim>\<open>wo-scheduled\<close> and no longer under \<^verbatim>\<open>wo-processing\<close>.
\<close>

lemma boot_reschedules_unanswered:
  assumes "wo \<in> set (kv_lookup s ''wo-processing'')"
      and "kv_get s ''wo-responses'' wo = None"
      and "manager_on_boot e s = (Inr r, s')"
  shows "wo \<in> set (kv_lookup s' ''wo-scheduled'') \<and> wo \<notin> set (kv_lookup s' ''wo-processing'')"
proof -
  from assms(3) obtain worker_info where wi: "create_json_worker e = Inr worker_info"
    by (cases "create_json_worker e") (auto simp: manager_on_boot_def)
  define s2 where "s2 = kv_set (clear_workers s) ''workers'' (worker_id e) worker_info"
  have t: "t \<noteq> ''workers'' \<Longrightarrow> tables s2 t = tables s t" for t
    by (simp add: s2_def tables_kv_set tables_clear_workers)
  from assms(3) have run: "boot_each e (kv_lookup s2 ''wo-processing'') s2 = (Inr r, s')"
    by (simp add: manager_on_boot_def wi s2_def Let_def)
  have "wo \<in> set (kv_lookup s2 ''wo-processing'')" using assms(1) by (simp add: kv_lookup_def t)
  moreover have "kv_get s2 ''wo-responses'' wo = None" using assms(2) by (simp add: kv_get_def t)
  ultimately show ?thesis using boot_each_rescheduled [OF run] by auto
qed

text \<open>
  C5 as the code has it. The boot flow hands \<^verbatim>\<open>__update_receipt\<close> the response as the
  text it read from the store, where the steady-state transition hands it the parsed
  value. On a text, \<^verbatim>\<open>"error" in wo_json_resp\<close> is a substring search, and when it finds
  the word, \<^verbatim>\<open>wo_json_resp["error"]\<close> subscripts a string with a string: \<^verbatim>\<open>TypeError\<close>.
  So when the first id the sweep visits has a receipt and a stored response that is not
  a failure and contains the word, the sweep ends there with the exception, and
  \<^verbatim>\<open>wo-processing\<close> and \<^verbatim>\<open>wo-scheduled\<close> list what they listed before: an id behind it
  with no response is not put back.
\<close>

theorem boot_aborts_on_error_response:
  assumes wi: "create_json_worker e = Inr worker_info"
      and first: "kv_lookup s ''wo-processing'' = wo0 # rest"
      and resp: "kv_get s ''wo-responses'' wo0 = Some resp_str"
      and loads: "json_loads e resp_str = Some wo_resp"
      and ok: "response_failed e wo_resp = Inr False"
      and receipt: "truthy (kv_get s ''wo-receipts'' wo0)"
      and err: "is_substring ''error'' resp_str"
  shows "fst (manager_on_boot e s) = Inl TypeError
       \<and> kv_lookup (snd (manager_on_boot e s)) ''wo-processing'' = kv_lookup s ''wo-processing''
       \<and> kv_lookup (snd (manager_on_boot e s)) ''wo-scheduled'' = kv_lookup s ''wo-scheduled''"
proof -
  define s2 where "s2 = kv_set (clear_workers s) ''workers'' (worker_id e) worker_info"
  have t: "t \<noteq> ''workers'' \<Longrightarrow> tables s2 t = tables s t" for t
    by (simp add: s2_def tables_kv_set tables_clear_workers)
  have u: "update_receipt e wo0 (PStr resp_str) s2 = (Inl TypeError, s2)"
    using receipt err by (simp add: update_receipt_def receipt_update_type_def kv_get_def t)
  have b: "boot_wo e wo0 s2 = (Inl TypeError, s2)"
    using resp loads ok receipt u by (simp add: boot_wo_def kv_get_def t)
  have "manager_on_boot e s = (Inl TypeError, s2)"
    using first b by (simp add: manager_on_boot_def wi s2_def [symmetric] Let_def kv_lookup_def t)
  then show ?thesis by (simp add: kv_lookup_def t)
qed

theorem boot_aborts_on_error_response_witness:
  \<open>kv_lookup crashed_store ''wo-processing'' = [''wo0'', ''wo3'']
   \<and> kv_get crashed_store ''wo-responses'' ''wo0'' = Some ''{"error": {"code": 2}}''
   \<and> kv_get crashed_store ''wo-responses'' ''wo3'' = None
   \<and> fst (manager_on_boot demo_env crashed_store) = Inl TypeError
   \<and> ''wo3'' \<in> set (kv_lookup (snd (manager_on_boot demo_env crashed_store)) ''wo-processing'')
   \<and> ''wo3'' \<notin> set (kv_lookup (snd (manager_on_boot demo_env crashed_store)) ''wo-scheduled'')\<close>
proof -
  have wi: "create_json_worker demo_env = Inr ''{}''"
    by (simp add: demo_eval)
  have first: "kv_lookup crashed_store ''wo-processing'' = [''wo0'', ''wo3'']"
    by (simp add: crashed_store_def store_eval)
  have resp: \<open>kv_get crashed_store ''wo-responses'' ''wo0'' = Some ''{"error": {"code": 2}}''\<close>
    by (simp add: crashed_store_def store_eval)
  have loads: \<open>json_loads demo_env ''{"error": {"code": 2}}''
                 = Some (PDict [(''error'', PDict [(''code'', PInt 2)])])\<close>
    by (simp add: demo_eval)
  have ok: "response_failed demo_env (PDict [(''error'', PDict [(''code'', PInt 2)])]) = Inr False"
    by (simp add: response_failed_def)
  have receipt: "truthy (kv_get crashed_store ''wo-receipts'' ''wo0'')"
    by (simp add: crashed_store_def store_eval)
  have err: \<open>is_substring ''error'' ''{"error": {"code": 2}}''\<close>
    by simp
  have rest: "kv_get crashed_store ''wo-responses'' ''wo3'' = None"
    "kv_lookup crashed_store ''wo-scheduled'' = []"
    by (simp_all add: crashed_store_def store_eval)
  from boot_aborts_on_error_response [OF wi first resp loads ok receipt err] first resp rest
  show ?thesis by simp
qed

text \<open>
  C6 as stated fails on scenario C: after the sweep the entry of \<^verbatim>\<open>wo3\<close> under
  \<^verbatim>\<open>wo-processing\<close> is gone, not left in place. The \<^verbatim>\<open>else\<close> branch that re-schedules the
  id falls through to the removal that ends the loop body.
\<close>

theorem boot_step_unanswered_counterexample:
  "kv_get scenario_C ''wo-processing'' ''wo3'' = Some ''PROCESSING''
   \<and> kv_get scenario_C ''wo-responses'' ''wo3'' = None
   \<and> kv_get (snd (manager_on_boot demo_env scenario_C)) ''wo-scheduled'' ''wo3'' = Some ''SCHEDULED''
   \<and> kv_get (snd (manager_on_boot demo_env scenario_C)) ''wo-processing'' ''wo3'' = None"
  by (simp add: scenario_C_def store_eval demo_eval manager_eval)

text \<open>
  C6, amended. For an id with no entry under \<^verbatim>\<open>wo-responses\<close>, the step of the sweep
  returns after exactly two writes, \<^verbatim>\<open>wo-scheduled[id] = SCHEDULED\<close> and then the removal
  of \<^verbatim>\<open>wo-processing[id]\<close>; afterwards the id is scheduled, its processing entry is
  gone, and every other entry of every table reads as before.
\<close>

theorem boot_step_unanswered:
  assumes "kv_get s ''wo-responses'' wo = None"
  shows "fst (boot_wo e wo s) = Inr PNone
       \<and> journal (snd (boot_wo e wo s))
           = journal s @ [Put ''wo-scheduled'' wo ''SCHEDULED'', Del ''wo-processing'' wo]
       \<and> kv_get (snd (boot_wo e wo s)) ''wo-scheduled'' wo = Some ''SCHEDULED''
       \<and> kv_get (snd (boot_wo e wo s)) ''wo-processing'' wo = None
       \<and> (\<forall>t k. (t, k) \<noteq> (''wo-scheduled'', wo) \<and> (t, k) \<noteq> (''wo-processing'', wo)
             \<longrightarrow> kv_get (snd (boot_wo e wo s)) t k = kv_get s t k)"
  using assms
  by (simp add: boot_wo_def kv_get_set kv_get_remove journal_kv_set journal_kv_remove)

theorem boot_step_unanswered_witness:
  "kv_get scenario_C ''wo-responses'' ''wo3'' = None
   \<and> fst (boot_wo demo_env ''wo3'' scenario_C) = Inr PNone
   \<and> journal (snd (boot_wo demo_env ''wo3'' scenario_C))
       = [Put ''wo-scheduled'' ''wo3'' ''SCHEDULED'', Del ''wo-processing'' ''wo3'']
   \<and> kv_get (snd (boot_wo demo_env ''wo3'' scenario_C)) ''wo-scheduled'' ''wo3'' = Some ''SCHEDULED''
   \<and> kv_get (snd (boot_wo demo_env ''wo3'' scenario_C)) ''wo-processing'' ''wo3'' = None
   \<and> kv_get (snd (boot_wo demo_env ''wo3'' scenario_C)) ''wo-requests'' ''wo3'' = Some ''{}''"
proof -
  have n: "kv_get scenario_C ''wo-responses'' ''wo3'' = None"
    by (simp add: scenario_C_def store_eval)
  have j: "journal scenario_C = []"
    by (simp add: scenario_C_def store_eval)
  have q: "kv_get scenario_C ''wo-requests'' ''wo3'' = Some ''{}''"
    by (simp add: scenario_C_def store_eval)
  from boot_step_unanswered [OF n, of demo_env] n j q show ?thesis by simp
qed

section \<open>The handshake\<close>

lemmas kme_eval =
  demo_kme_def kme_response_def down_kme_def null_kme_def
  get_unique_verification_key_def register_wo_processor_def
  unique_verification_key_of_def registration_of_def post_and_get_result_def
  construct_wo_req_def get_request_json_def verify_res_signature_def preprocess_work_order_def
  preprocess_request_def create_signup_data_def demo_wpe_def untrusted_wpe_def py_nth_def

text \<open>\<^verbatim>\<open>_post_and_get_result\<close> hands on what the transport did.\<close>

lemma post_and_get_result_eq: "post_and_get_result k request = postmsg k (dumps k request)"
  by (simp add: post_and_get_result_def split: sum.splits)

text \<open>
  A response that is a dict without \<^verbatim>\<open>result\<close> makes both steps return None, as the
  source's \<^verbatim>\<open>else\<close> branches say.
\<close>

lemma unique_verification_key_of_no_result:
  "py_contains ''result'' response = Inr False \<Longrightarrow>
     unique_verification_key_of k response session_key session_iv verifying_key = Inr PNone"
  by (simp add: unique_verification_key_of_def)

lemma registration_of_no_result:
  "py_contains ''result'' response = Inr False \<Longrightarrow>
     registration_of k response session_key session_iv verifying_key = Inr PNone"
  by (simp add: registration_of_def)

text \<open>
  A response on which \<^verbatim>\<open>"result" in response\<close> raises (None, a number, a bool) makes both
  steps raise.
\<close>

lemma unique_verification_key_of_not_iterable:
  "py_contains ''result'' response = Inl x \<Longrightarrow>
     unique_verification_key_of k response session_key session_iv verifying_key = Inl x"
  by (simp add: unique_verification_key_of_def)

lemma registration_of_not_iterable:
  "py_contains ''result'' response = Inl x \<Longrightarrow>
     registration_of k response session_key session_iv verifying_key = Inl x"
  by (simp add: registration_of_def)

lemma create_signup_data_no_key:
  "requester_key w (generate_nonce w 32) = Inr PNone \<Longrightarrow> create_signup_data w = Inr None"
  by (simp add: create_signup_data_def)

lemma create_signup_data_raise:
  "requester_key w (generate_nonce w 32) = Inl x \<Longrightarrow> create_signup_data w = Inl x"
  by (simp add: create_signup_data_def)



text \<open>
  C9 as the code has it. Neither step has a handler. When the transport raises, the
  exception passes through \<^verbatim>\<open>_post_and_get_result\<close> and through the step. When the
  transport delivers something on which \<^verbatim>\<open>"result" in response\<close> raises (None from the body
  \<^verbatim>\<open>null\<close>, a number, a bool), that \<^verbatim>\<open>TypeError\<close> passes through the step. In neither
  case does the step return None.
\<close>

theorem handshake_step_raises:
  "(construct_wo_req k (dumps k (PDict [(''nonce'', PStr nonce)])) ''kme-uid''
        encryption_key (generate_key k) (generate_iv k) = Inr wo_req
    \<longrightarrow> (postmsg k (dumps k (PDict (get_request_json k ''GetUniqueVerificationKey''
                          @ [(''params'', PDict [(''wo_request'', wo_req)])]))) = Inl x
          \<longrightarrow> get_unique_verification_key k nonce encryption_key verifying_key = Inl x)
        \<and> (postmsg k (dumps k (PDict (get_request_json k ''GetUniqueVerificationKey''
                          @ [(''params'', PDict [(''wo_request'', wo_req)])]))) = Inr response
          \<longrightarrow> py_contains ''result'' response = Inl y
          \<longrightarrow> get_unique_verification_key k nonce encryption_key verifying_key = Inl y))
   \<and> (construct_wo_req k (dumps k (PDict [(''attestation_report'', PStr attestation_report)]))
        ''kme-reg'' encryption_key (generate_key k) (generate_iv k) = Inr wo_request
    \<longrightarrow> (postmsg k (dumps k (PDict (get_request_json k ''RegisterWorkOrderProcessor''
                          @ [(''params'', PDict [(''wo_request'', wo_request)])]))) = Inl x
          \<longrightarrow> register_wo_processor k attestation_report encryption_key verifying_key = Inl x)
        \<and> (postmsg k (dumps k (PDict (get_request_json k ''RegisterWorkOrderProcessor''
                          @ [(''params'', PDict [(''wo_request'', wo_request)])]))) = Inr response
          \<longrightarrow> py_contains ''result'' response = Inl y
          \<longrightarrow> register_wo_processor k attestation_report encryption_key verifying_key = Inl y))"
  by (simp add: get_unique_verification_key_def register_wo_processor_def
                post_and_get_result_def unique_verification_key_of_def registration_of_def)

text \<open>
  A transport that raises, and one that delivers \<^verbatim>\<open>null\<close>: both steps end in the
  exception.
\<close>

theorem handshake_step_raises_witness:
  "postmsg down_kme ''request'' = Inl (External ''connection refused'')
   \<and> get_unique_verification_key down_kme ''nonce'' ''ek'' ''vk''
       = Inl (External ''connection refused'')
   \<and> register_wo_processor down_kme ''report'' ''ek'' ''vk'' = Inl (External ''connection refused'')
   \<and> postmsg null_kme ''request'' = Inr PNone
   \<and> py_contains ''result'' PNone = Inl TypeError
   \<and> get_unique_verification_key null_kme ''nonce'' ''ek'' ''vk'' = Inl TypeError
   \<and> register_wo_processor null_kme ''report'' ''ek'' ''vk'' = Inl TypeError"
proof -
  have built: "construct_wo_req k in_data workload_id ''ek'' (generate_key k) (generate_iv k)
      = Inr (PDict [(''jsonrpc'', PStr ''2.0''), (''method'', PStr workload_id),
                    (''id'', PInt 8), (''params'', PDict [])])"
    if "k = down_kme \<or> k = null_kme" for k in_data workload_id
    using that by (auto simp: construct_wo_req_def down_kme_def null_kme_def demo_kme_def)
  have down: "postmsg down_kme request = Inl (External ''connection refused'')" for request
    by (simp add: down_kme_def)
  have null: "postmsg null_kme request = Inr PNone" for request
    by (simp add: null_kme_def)
  have t: "py_contains ''result'' PNone = Inl TypeError"
    by simp
  from handshake_step_raises [of down_kme "''nonce''" "''ek''" _ "External ''connection refused''"
         "''vk''" _ _ "''report''"] built [of down_kme] down
  have a: "get_unique_verification_key down_kme ''nonce'' ''ek'' ''vk''
       = Inl (External ''connection refused'')
     \<and> register_wo_processor down_kme ''report'' ''ek'' ''vk'' = Inl (External ''connection refused'')"
    by simp
  from handshake_step_raises [of null_kme "''nonce''" "''ek''" _ _ "''vk''" PNone TypeError
         "''report''"] built [of null_kme] null t
  have b: "get_unique_verification_key null_kme ''nonce'' ''ek'' ''vk'' = Inl TypeError
     \<and> register_wo_processor null_kme ''report'' ''ek'' ''vk'' = Inl TypeError"
    by simp
  from a b down null t show ?thesis by simp
qed

text \<open>
  C10. Whatever response the transport delivers for the request,
  \<^verbatim>\<open>preprocess_work_order\<close> returns None; and a call that returns, returns None. (A call
  whose transport raises does not return: the exception passes through.)
\<close>

theorem preprocess_work_order_returns_None:
  "(postmsg k (dumps k (preprocess_request k wo_request encryption_key)) = Inr response
      \<longrightarrow> preprocess_work_order k wo_request encryption_key verifying_key = Inr PNone)
   \<and> (preprocess_work_order k wo_request encryption_key verifying_key = Inr v \<longrightarrow> v = PNone)"
  by (auto simp: preprocess_work_order_def post_and_get_result_def split: sum.splits)

theorem preprocess_work_order_returns_None_witness:
  "postmsg demo_kme (dumps demo_kme (preprocess_request demo_kme (PDict []) ''ek'')) = Inr kme_response
   \<and> preprocess_work_order demo_kme (PDict []) ''ek'' ''vk'' = Inr PNone"
proof -
  have a: "postmsg demo_kme (dumps demo_kme (preprocess_request demo_kme (PDict []) ''ek''))
             = Inr kme_response"
    by (simp add: demo_kme_def)
  from preprocess_work_order_returns_None [of demo_kme "PDict []" "''ek''" kme_response "''vk''"] a
  show ?thesis by simp
qed

end
